theory Spec2Isabelle
  imports Main "HOL-Library.Sublist" "HOL-Library.AList"
begin

section \<open>Python values, strings and integers\<close>

text \<open>
  The attributes of a \<open>Job\<close> and the arguments of its constructor are dynamically typed.
  The values that occur are \<open>None\<close>, booleans, integers and byte strings.
\<close>

datatype pyval = PNone | PBool bool | PInt int | PStr string

text \<open>The exceptions that \<open>job.py\<close> can raise and the diagnostics it prints before doing so.\<close>

datatype exn = NameError string | ValueError string | TypeError string | SystemExit

datatype diagnostic =
    AutoNotUnderstood string
  | MissingRequired "(string \<times> pyval) list" "(string \<times> pyval) list"

text \<open>An error is what was printed on standard output (if anything) and the exception raised.\<close>

type_synonym error = "diagnostic option \<times> exn"

text \<open>\<open>isspace\<close>: the characters matched by \<open>\s\<close> and stripped by \<open>int()\<close> on a byte string.\<close>

definition isspace :: "char \<Rightarrow> bool" where
  "isspace c = (c \<in> set [CHR '' '', CHR 0x09, CHR ''\<newline>'', CHR 0x0D, CHR 0x0C, CHR 0x0B])"

definition isdigit :: "char \<Rightarrow> bool" where
  "isdigit c = (c \<in> set ''0123456789'')"

text \<open>The value of a decimal digit is its place among the digits, and back.\<close>

definition digit_val :: "char \<Rightarrow> nat" where
  "digit_val c = length (takeWhile (\<lambda>d. d \<noteq> c) ''0123456789'')"

definition digit_chr :: "nat \<Rightarrow> char" where
  "digit_chr d = ''0123456789'' ! d"

text \<open>The value of a digit string, most significant digit first, with an accumulator.\<close>

fun digits_val :: "nat \<Rightarrow> string \<Rightarrow> nat" where
  "digits_val acc [] = acc"
| "digits_val acc (c # cs) = digits_val (10 * acc + digit_val c) cs"

text \<open>
  \<open>int(s)\<close> for a string in base 10: surrounding whitespace is skipped, one sign is allowed,
  at least one digit is required and nothing else may remain; otherwise \<open>ValueError\<close>.
\<close>

definition int_of_str :: "string \<Rightarrow> exn + int" where
  "int_of_str s =
     (let t = dropWhile isspace s;
          neg = (t \<noteq> [] \<and> hd t = CHR ''-'');
          u = (if t \<noteq> [] \<and> (hd t = CHR ''-'' \<or> hd t = CHR ''+'') then tl t else t);
          ds = takeWhile isdigit u;
          r = dropWhile isdigit u
      in if ds = [] \<or> \<not> list_all isspace r then Inl (ValueError s)
         else Inr (if neg then - int (digits_val 0 ds) else int (digits_val 0 ds)))"

text \<open>\<open>int(x)\<close> on the values of the model; \<open>int(None)\<close> is a \<open>TypeError\<close>.\<close>

fun py_int :: "pyval \<Rightarrow> exn + int" where
  "py_int PNone = Inl (TypeError ''int() argument must be a string or a number'')"
| "py_int (PBool b) = Inr (if b then 1 else 0)"
| "py_int (PInt n) = Inr n"
| "py_int (PStr s) = int_of_str s"

text \<open>\<open>bool(x)\<close>: the truth value of a Python object.\<close>

fun py_bool :: "pyval \<Rightarrow> bool" where
  "py_bool PNone = False"
| "py_bool (PBool b) = b"
| "py_bool (PInt n) = (n \<noteq> 0)"
| "py_bool (PStr s) = (s \<noteq> [])"

text \<open>Decimal digits of a natural number, as \<open>str\<close> prints them.\<close>

fun str_nat :: "nat \<Rightarrow> string" where
  "str_nat n = (if n < 10 then [digit_chr n] else str_nat (n div 10) @ [digit_chr (n mod 10)])"

declare str_nat.simps [simp del]

definition str_int :: "int \<Rightarrow> string" where
  "str_int i = (if i < 0 then CHR ''-'' # str_nat (nat (- i)) else str_nat (nat i))"

definition str_bool :: "bool \<Rightarrow> string" where
  "str_bool b = (if b then ''True'' else ''False'')"

text \<open>\<open>"{0}".format(x)\<close> for an attribute holding a string or \<open>None\<close>.\<close>

fun fmt :: "string option \<Rightarrow> string" where
  "fmt None = ''None''"
| "fmt (Some s) = s"

fun fmt_int :: "int option \<Rightarrow> string" where
  "fmt_int None = ''None''"
| "fmt_int (Some i) = str_int i"

section \<open>Regular expressions as \<open>re\<close> matches them\<close>

text \<open>
  The patterns of \<open>job.py\<close> use literals, \<open>\s\<close>, \<open>.\<close>, character sets, concatenation,
  alternation, greedy repetition and capturing groups. \<open>rmatch r s c\<close> lists every way in
  which \<open>r\<close> matches a prefix of \<open>s\<close>, as the captured groups and the remaining text, in the
  order in which the backtracking matcher of \<open>re\<close> tries them: the first element is the
  match that \<open>re\<close> reports.
\<close>

datatype rx = Eps | Str string | Space | Dot | OneOf string
  | Seq rx rx | Alt rx rx | Star rx | Grp nat rx

type_synonym caps = "(nat \<times> string) list"

function rmatch :: "rx \<Rightarrow> string \<Rightarrow> caps \<Rightarrow> (caps \<times> string) list" where
  "rmatch Eps s c = [(c, s)]"
| "rmatch (Str l) s c = (if prefix l s then [(c, drop (length l) s)] else [])"
| "rmatch Space s c = (case s of [] \<Rightarrow> [] | x # xs \<Rightarrow> if isspace x then [(c, xs)] else [])"
| "rmatch Dot s c =
     (case s of [] \<Rightarrow> [] | x # xs \<Rightarrow> if x \<noteq> CHR ''\<newline>'' then [(c, xs)] else [])"
| "rmatch (OneOf k) s c = (case s of [] \<Rightarrow> [] | x # xs \<Rightarrow> if x \<in> set k then [(c, xs)] else [])"
| "rmatch (Seq r1 r2) s c = concat (map (\<lambda>p. rmatch r2 (snd p) (fst p)) (rmatch r1 s c))"
| "rmatch (Alt r1 r2) s c = rmatch r1 s c @ rmatch r2 s c"
| "rmatch (Star r) s c =
     concat (map (\<lambda>p. if length (snd p) < length s then rmatch (Star r) (snd p) (fst p) else [])
                 (rmatch r s c)) @ [(c, s)]"
| "rmatch (Grp n r) s c =
     map (\<lambda>p. ((n, take (length s - length (snd p)) s) # fst p, snd p)) (rmatch r s c)"
  by pat_completeness auto
termination
  by (relation "measures [\<lambda>(r, s, c). size r, \<lambda>(r, s, c). length s]") auto

text \<open>The equation for repetition unfolds for ever on a text that is not known.\<close>

lemmas rmatch_Star = rmatch.simps(8)

declare rmatch.simps(8) [simp del]

text \<open>\<open>r+\<close> is \<open>r\<close> followed by \<open>r*\<close>.\<close>

abbreviation Plus :: "rx \<Rightarrow> rx" where
  "Plus r \<equiv> Seq r (Star r)"

text \<open>\<open>re.match\<close>: a match at the start of the string.\<close>

definition re_match :: "rx \<Rightarrow> string \<Rightarrow> caps option" where
  "re_match r s = (case rmatch r s [] of [] \<Rightarrow> None | p # _ \<Rightarrow> Some (fst p))"

text \<open>\<open>re.search\<close>: the match at the leftmost position that has one.\<close>

fun re_search :: "rx \<Rightarrow> string \<Rightarrow> caps option" where
  "re_search r [] = re_match r []"
| "re_search r (x # xs) =
     (case re_match r (x # xs) of Some c \<Rightarrow> Some c | None \<Rightarrow> re_search r xs)"

text \<open>\<open>m.group(n)\<close>: the text captured last by group \<open>n\<close>.\<close>

definition group :: "caps \<Rightarrow> nat \<Rightarrow> string" where
  "group c n = (case map_of c n of Some g \<Rightarrow> g | None \<Rightarrow> [])"

subsection \<open>The patterns of \<open>Job.read\<close>\<close>

text \<open>\<open>"#PBS"\<close>\<close>
definition pat_PBS :: rx where
  "pat_PBS = Str ''#PBS''"

text \<open>\<open>"-N\s+(.*)\s"\<close> and its siblings for \<open>-A\<close>, \<open>-a\<close>, \<open>-q\<close>, \<open>-M\<close>, \<open>-m\<close>, \<open>-p\<close>.\<close>
definition pat_flag :: "string \<Rightarrow> rx" where
  "pat_flag f = Seq (Str f) (Seq (Plus Space) (Seq (Grp 1 (Star Dot)) Space))"

text \<open>\<open>"\s-l\s"\<close>\<close>
definition pat_l :: rx where
  "pat_l = Seq Space (Seq (Str ''-l'') Space)"

text \<open>\<open>"walltime=(.*)\s"\<close> and \<open>"pmem=(.*)\s"\<close>\<close>
definition pat_res :: "string \<Rightarrow> rx" where
  "pat_res k = Seq (Str k) (Seq (Grp 1 (Star Dot)) Space)"

text \<open>\<open>"nodes=(.*):ppn=(.*)\s"\<close>\<close>
definition pat_nodes :: rx where
  "pat_nodes = Seq (Str ''nodes='') (Seq (Grp 1 (Star Dot))
                 (Seq (Str '':ppn='') (Seq (Grp 2 (Star Dot)) Space)))"

text \<open>\<open>"auto=\s*(.*)\s"\<close>\<close>
definition pat_auto :: rx where
  "pat_auto = Seq (Str ''auto='') (Seq (Star Space) (Seq (Grp 1 (Star Dot)) Space))"

text \<open>\<open>"[fF](alse)*|0"\<close> and \<open>"[tT](rue)*|1"\<close>\<close>
definition pat_false :: rx where
  "pat_false = Alt (Seq (OneOf ''fF'') (Star (Grp 1 (Str ''alse'')))) (Str ''0'')"

definition pat_true :: rx where
  "pat_true = Alt (Seq (OneOf ''tT'') (Star (Grp 1 (Str ''rue'')))) (Str ''1'')"

text \<open>\<open>"cd\s+\$PBS_O_WORKDIR\s+"\<close>\<close>
definition pat_cd :: rx where
  "pat_cd = Seq (Str ''cd'') (Seq (Plus Space) (Seq (Str ''$PBS_O_WORKDIR'') (Plus Space)))"

section \<open>The \<open>Job\<close> object\<close>

text \<open>
  The attributes of a \<open>Job\<close>. Text attributes hold a string or \<open>None\<close>. An attribute that
  a freshly allocated object does not have yet is \<open>None\<close> as well.
\<close>

record job =
  name :: "string option"
  account :: "string option"
  nodes :: "int option"
  ppn :: "int option"
  walltime :: "string option"
  pmem :: "string option"
  queue :: "string option"
  exetime :: "string option"
  message :: "string option"
  email :: "string option"
  priority :: "string option"
  command :: "string option"
  auto :: bool
  jobID :: "string option"

text \<open>The object before \<open>__init__\<close> has assigned anything.\<close>

definition fresh :: job where
  "fresh = \<lparr>name = None, account = None, nodes = None, ppn = None, walltime = None,
            pmem = None, queue = None, exetime = None, message = None, email = None,
            priority = None, command = None, auto = False, jobID = None\<rparr>"

subsection \<open>\<open>Job.qsub_string\<close>\<close>

definition qsub_string :: "job \<Rightarrow> string" where
  \<open>qsub_string self =
     ''#!/bin/sh\<newline>''
     @ ''#PBS -S /bin/sh\<newline>''
     @ ''#PBS -N '' @ fmt (name self) @ ''\<newline>''
     @ (if exetime self \<noteq> None then ''#PBS -a '' @ fmt (exetime self) @ ''\<newline>'' else [])
     @ (if account self \<noteq> None then ''#PBS -A '' @ fmt (account self) @ ''\<newline>'' else [])
     @ ''#PBS -l walltime='' @ fmt (walltime self) @ ''\<newline>''
     @ ''#PBS -l nodes='' @ fmt_int (nodes self) @ '':ppn='' @ fmt_int (ppn self) @ ''\<newline>''
     @ (if pmem self \<noteq> None then ''#PBS -l pmem='' @ fmt (pmem self) @ ''\<newline>'' else [])
     @ ''#PBS -l qos='' @ fmt (queue self) @ ''\<newline>''
     @ ''#PBS -q '' @ fmt (queue self) @ ''\<newline>''
     @ (if email self \<noteq> None \<and> message self \<noteq> None
        then ''#PBS -M '' @ fmt (email self) @ ''\<newline>''
           @ ''#PBS -m '' @ fmt (message self) @ ''\<newline>''
        else [])
     @ ''#PBS -V\<newline>''
     @ ''#PBS -p '' @ fmt (priority self) @ ''\<newline>\<newline>''
     @ ''#auto='' @ str_bool (auto self) @ ''\<newline>\<newline>''
     @ ''echo "I ran on:"\<newline>''
     @ ''cat $PBS_NODEFILE\<newline>\<newline>''
     @ ''cd $PBS_O_WORKDIR\<newline>''
     @ fmt (command self) @ ''\<newline>''\<close>

subsection \<open>\<open>Job.read\<close>\<close>

text \<open>
  The state of \<open>read\<close>: the object itself and the two dictionaries \<open>optional\<close> and
  \<open>required\<close>, kept as association lists.
\<close>

record read_state = job +
  optional :: "(string \<times> pyval) list"
  required :: "(string \<times> pyval) list"

text \<open>\<open>StringIO.readline\<close>: the text up to and including the next newline, and what is left.\<close>

fun readline :: "string \<Rightarrow> string \<times> string" where
  "readline [] = ([], [])"
| "readline (c # cs) =
     (if c = CHR ''\<newline>'' then ([c], cs)
      else (case readline cs of (l, r) \<Rightarrow> (c # l, r)))"

text \<open>
  The module imports \<open>subprocess\<close>, \<open>re\<close>, \<open>os\<close>, \<open>StringIO\<close>, \<open>jobdb\<close> and \<open>misc\<close> and
  defines \<open>Job\<close>. A call \<open>sys.exit()\<close> first looks the name \<open>sys\<close> up.
\<close>

definition module_globals :: "string list" where
  "module_globals = [''subprocess'', ''re'', ''os'', ''StringIO'', ''jobdb'', ''misc'', ''Job'']"

definition sys_exit :: exn where
  "sys_exit = (if ''sys'' \<in> set module_globals then SystemExit else NameError ''sys'')"

text \<open>The assignments of the loop body, one directive at a time.\<close>

definition set_name :: "string \<Rightarrow> read_state \<Rightarrow> read_state" where
  "set_name line st =
     (case re_search (pat_flag ''-N'') line of
        Some m \<Rightarrow> st\<lparr>name := Some (group m 1),
                    required := AList.update ''name'' (PStr (group m 1)) (required st)\<rparr>
      | None \<Rightarrow> st)"

definition set_account :: "string \<Rightarrow> read_state \<Rightarrow> read_state" where
  "set_account line st =
     (case re_search (pat_flag ''-A'') line of
        Some m \<Rightarrow> st\<lparr>account := Some (group m 1),
                    optional := AList.update ''account'' (PStr (group m 1)) (optional st)\<rparr>
      | None \<Rightarrow> st)"

definition set_exetime :: "string \<Rightarrow> read_state \<Rightarrow> read_state" where
  "set_exetime line st =
     (case re_search (pat_flag ''-a'') line of
        Some m \<Rightarrow> st\<lparr>exetime := Some (group m 1),
                    optional := AList.update ''exetime'' (PStr (group m 1)) (optional st)\<rparr>
      | None \<Rightarrow> st)"

definition set_walltime :: "string \<Rightarrow> read_state \<Rightarrow> read_state" where
  "set_walltime line st =
     (case re_search (pat_res ''walltime='') line of
        Some m \<Rightarrow> st\<lparr>walltime := Some (group m 1),
                    required := AList.update ''walltime'' (PStr (group m 1)) (required st)\<rparr>
      | None \<Rightarrow> st)"

definition set_nodes :: "string \<Rightarrow> read_state \<Rightarrow> exn + read_state" where
  "set_nodes line st =
     (case re_search pat_nodes line of
        Some m \<Rightarrow>
          (case int_of_str (group m 1) of
             Inl e \<Rightarrow> Inl e
           | Inr n \<Rightarrow>
              (case int_of_str (group m 2) of
                 Inl e \<Rightarrow> Inl e
               | Inr p \<Rightarrow>
                   Inr (st\<lparr>nodes := Some n, ppn := Some p,
                           required := AList.update ''ppn'' (PInt p)
                                         (AList.update ''nodes'' (PInt n) (required st))\<rparr>)))
      | None \<Rightarrow> Inr st)"

definition set_pmem :: "string \<Rightarrow> read_state \<Rightarrow> read_state" where
  "set_pmem line st =
     (case re_search (pat_res ''pmem='') line of
        Some m \<Rightarrow> st\<lparr>pmem := Some (group m 1),
                    optional := AList.update ''pmem'' (PStr (group m 1)) (optional st)\<rparr>
      | None \<Rightarrow> st)"

definition set_resources :: "string \<Rightarrow> read_state \<Rightarrow> exn + read_state" where
  "set_resources line st =
     (if re_search pat_l line \<noteq> None
      then (case set_nodes line (set_walltime line st) of
              Inl e \<Rightarrow> Inl e
            | Inr st' \<Rightarrow> Inr (set_pmem line st'))
      else Inr st)"

definition set_queue :: "string \<Rightarrow> read_state \<Rightarrow> read_state" where
  "set_queue line st =
     (case re_search (pat_flag ''-q'') line of
        Some m \<Rightarrow> st\<lparr>queue := Some (group m 1),
                    required := AList.update ''queue'' (PStr (group m 1)) (required st)\<rparr>
      | None \<Rightarrow> st)"

definition set_email :: "string \<Rightarrow> read_state \<Rightarrow> read_state" where
  "set_email line st =
     (case re_match (pat_flag ''-M'') line of
        Some m \<Rightarrow> st\<lparr>email := Some (group m 1),
                    optional := AList.update ''email'' (PStr (group m 1)) (optional st)\<rparr>
      | None \<Rightarrow> st)"

definition set_message :: "string \<Rightarrow> read_state \<Rightarrow> read_state" where
  "set_message line st =
     (case re_match (pat_flag ''-m'') line of
        Some m \<Rightarrow> st\<lparr>message := Some (group m 1),
                    optional := AList.update ''message'' (PStr (group m 1)) (optional st)\<rparr>
      | None \<Rightarrow> st)"

definition set_priority :: "string \<Rightarrow> read_state \<Rightarrow> read_state" where
  "set_priority line st =
     (case re_match (pat_flag ''-p'') line of
        Some m \<Rightarrow> st\<lparr>priority := Some (group m 1),
                    optional := AList.update ''priority'' (PStr (group m 1)) (optional st)\<rparr>
      | None \<Rightarrow> st)"

text \<open>The block under \<open>if re.search("#PBS",line)\<close>.\<close>

definition pbs_block :: "string \<Rightarrow> read_state \<Rightarrow> exn + read_state" where
  "pbs_block line st =
     (if re_search pat_PBS line \<noteq> None
      then (case set_resources line (set_exetime line (set_account line (set_name line st))) of
              Inl e \<Rightarrow> Inl e
            | Inr st' \<Rightarrow>
                Inr (set_priority line (set_message line (set_email line (set_queue line st')))))
      else Inr st)"

text \<open>The block under \<open>m = re.search("auto=\s*(.*)\s", line)\<close>.\<close>

definition auto_block :: "string \<Rightarrow> read_state \<Rightarrow> error + read_state" where
  "auto_block line st =
     (case re_search pat_auto line of
        Some m \<Rightarrow>
          if re_match pat_false (group m 1) \<noteq> None
          then Inr (st\<lparr>auto := False,
                       optional := AList.update ''auto'' (PBool False) (optional st)\<rparr>)
          else if re_match pat_true (group m 1) \<noteq> None
          then Inr (st\<lparr>auto := True,
                       optional := AList.update ''auto'' (PBool True) (optional st)\<rparr>)
          else Inl (Some (AutoNotUnderstood line), sys_exit)
      | None \<Rightarrow> Inr st)"

text \<open>The loop body up to the test for the working-directory line.\<close>

definition body :: "string \<Rightarrow> read_state \<Rightarrow> error + read_state" where
  "body line st =
     (case pbs_block line st of
        Inl e \<Rightarrow> Inl (None, e)
      | Inr st' \<Rightarrow> auto_block line st')"

definition found_cd :: "string \<Rightarrow> read_state \<Rightarrow> read_state" where
  "found_cd rest st =
     st\<lparr>command := Some rest,
        required := AList.update ''command'' (PStr rest)
                      (AList.update ''cd $PBS_O_WORKDIR'' (PStr ''Found'') (required st))\<rparr>"

text \<open>
  \<open>while True\<close>: the loop leaves through \<open>break\<close> or an exception only. \<open>None\<close> is the
  run that never leaves it.
\<close>

partial_function (option) read_loop :: "read_state \<Rightarrow> string \<Rightarrow> (error + read_state) option" where
  "read_loop st s =
     (case readline s of
        (line, rest) \<Rightarrow>
          (case body line st of
             Inl e \<Rightarrow> Some (Inl e)
           | Inr st' \<Rightarrow>
               if re_search pat_cd line \<noteq> None
               then Some (Inr (found_cd rest st'))
               else read_loop st' rest))"

declare read_loop.simps [code]

text \<open>The assignments before the loop.\<close>

definition read_init :: "job \<Rightarrow> read_state" where
  "read_init self =
     job.extend
       (self\<lparr>pmem := None, email := None, message := Some ''a'', priority := Some ''0'',
             auto := False, account := None, exetime := None\<rparr>)
       (read_state.fields
          [(''account'', PStr ''Default: None''), (''pmem'', PStr ''Default: None''),
           (''email'', PStr ''Default: None''), (''message'', PStr ''Default: a''),
           (''priority'', PStr ''Default: 0''), (''auto'', PStr ''Default: False''),
           (''exetime'', PStr ''Default: None'')]
          [(''name'', PStr ''Not Found''), (''walltime'', PStr ''Not Found''),
           (''nodes'', PStr ''Not Found''), (''ppn'', PStr ''Not Found''),
           (''queue'', PStr ''Not Found''), (''cd $PBS_O_WORKDIR'', PStr ''Not Found''),
           (''command'', PStr ''Not Found'')])"

text \<open>The check for required arguments after the loop.\<close>

definition check_required :: "read_state \<Rightarrow> error + job" where
  "check_required st =
     (if list_ex (\<lambda>kv. snd kv = PStr ''Not Found'') (required st)
      then Inl (Some (MissingRequired (optional st) (required st)), sys_exit)
      else Inr (job.truncate st))"

definition read :: "job \<Rightarrow> string \<Rightarrow> (error + job) option" where
  "read self qsubstr =
     (case read_loop (read_init self) qsubstr of
        None \<Rightarrow> None
      | Some (Inl e) \<Rightarrow> Some (Inl e)
      | Some (Inr st) \<Rightarrow> Some (check_required st))"

subsection \<open>\<open>Job.__init__\<close>\<close>

record init_args =
  a_name :: "string option"
  a_account :: "string option"
  a_nodes :: pyval
  a_ppn :: pyval
  a_walltime :: "string option"
  a_pmem :: "string option"
  a_queue :: "string option"
  a_exetime :: "string option"
  a_message :: "string option"
  a_email :: "string option"
  a_priority :: "string option"
  a_command :: "string option"
  a_auto :: pyval
  a_qsubstr :: "string option"

text \<open>The default values of the keyword arguments.\<close>

definition default_args :: init_args where
  "default_args =
     \<lparr>a_name = Some ''STDIN'', a_account = None, a_nodes = PNone, a_ppn = PNone,
      a_walltime = None, a_pmem = None, a_queue = None, a_exetime = None,
      a_message = Some ''a'', a_email = None, a_priority = Some ''0'', a_command = None,
      a_auto = PBool False, a_qsubstr = None\<rparr>"

definition init :: "init_args \<Rightarrow> (error + job) option" where
  "init a =
     (case a_qsubstr a of
        Some q \<Rightarrow> read fresh q
      | None \<Rightarrow>
          Some (case py_int (a_nodes a) of
                  Inl e \<Rightarrow> Inl (None, e)
                | Inr n \<Rightarrow>
                   (case py_int (a_ppn a) of
                      Inl e \<Rightarrow> Inl (None, e)
                    | Inr p \<Rightarrow>
                        Inr \<lparr>name = a_name a, account = a_account a, nodes = Some n,
                             ppn = Some p, walltime = a_walltime a, pmem = a_pmem a,
                             queue = a_queue a, exetime = a_exetime a,
                             message = a_message a, email = a_email a,
                             priority = a_priority a, command = a_command a,
                             auto = py_bool (a_auto a), jobID = None\<rparr>)))"

text \<open>\<open>Parse(text)\<close> is \<open>Job(qsubstr=text)\<close> and \<open>Serialize\<close> is \<open>qsub_string\<close>.\<close>

definition parse :: "string \<Rightarrow> (error + job) option" where
  "parse text = init (default_args\<lparr>a_qsubstr := Some text\<rparr>)"

section \<open>Notions used in the statements\<close>

text \<open>The lines of a text as \<open>readline\<close> delivers them, each with its newline.\<close>

fun split_lines :: "string \<Rightarrow> string list" where
  "split_lines [] = []"
| "split_lines (c # cs) =
     (if c = CHR ''\<newline>'' then [c] # split_lines cs
      else (case split_lines cs of [] \<Rightarrow> [[c]] | l # ls \<Rightarrow> (c # l) # ls))"

text \<open>The loop body run over a list of lines, stopping at the first exception.\<close>

fun scan :: "read_state \<Rightarrow> string list \<Rightarrow> error + read_state" where
  "scan st [] = Inr st"
| "scan st (l # ls) = (case body l st of Inl e \<Rightarrow> Inl e | Inr st' \<Rightarrow> scan st' ls)"

text \<open>A line that matches the working-directory pattern.\<close>

definition is_cd :: "string \<Rightarrow> bool" where
  "is_cd line = (re_search pat_cd line \<noteq> None)"

text \<open>
  The two errors that can leave the loop: a \<open>ValueError\<close> of \<open>int()\<close>, with nothing
  printed, and the failure of \<open>sys.exit()\<close> after the complaint about \<open>auto=\<close>.
\<close>

definition loop_error :: "error \<Rightarrow> bool" where
  "loop_error e =
     ((\<exists>s. e = (None, ValueError s)) \<or> (\<exists>l. e = (Some (AutoNotUnderstood l), NameError ''sys'')))"

text \<open>
  A base-10 integer literal as \<open>int()\<close> accepts it: whitespace, an optional sign, at least
  one digit, whitespace.
\<close>

definition int_literal :: "string \<Rightarrow> bool" where
  "int_literal s =
     (\<exists>w1 sg ds w2. s = w1 @ sg @ ds @ w2 \<and> list_all isspace w1 \<and> sg \<in> {[], ''-'', ''+''}
        \<and> ds \<noteq> [] \<and> list_all isdigit ds \<and> list_all isspace w2)"

text \<open>
  The reading of the \<open>auto=\<close> value in the specification: the value, compared without
  regard to case, is one of \<open>true\<close>, \<open>t\<close>, \<open>1\<close> or one of \<open>false\<close>, \<open>f\<close>, \<open>0\<close>.
\<close>

definition lower :: "char \<Rightarrow> char" where
  "lower c = (case map_of (zip ''ABCDEFGHIJKLMNOPQRSTUVWXYZ'' ''abcdefghijklmnopqrstuvwxyz'') c of
                Some d \<Rightarrow> d | None \<Rightarrow> c)"

definition spec_auto_value :: "string \<Rightarrow> bool option" where
  "spec_auto_value v =
     (if map lower v \<in> set [''true'', ''t'', ''1''] then Some True
      else if map lower v \<in> set [''false'', ''f'', ''0''] then Some False
      else None)"

text \<open>
  Values that a directive line gives back unchanged: the patterns end a value at white space, and
  a value with \<open>=\<close> in it can be taken for a resource of an \<open>-l\<close> line.
\<close>

definition nospace :: "string \<Rightarrow> bool" where
  "nospace v = list_all (\<lambda>c. \<not> isspace c) v"

definition plain :: "string \<Rightarrow> bool" where
  "plain v = list_all (\<lambda>c. \<not> isspace c \<and> c \<noteq> CHR ''='') v"

definition plain_opt :: "string option \<Rightarrow> bool" where
  "plain_opt x = (case x of None \<Rightarrow> True | Some v \<Rightarrow> plain v)"

text \<open>
  A job that \<open>qsub_string\<close> can write and \<open>read\<close> can take in: the attributes that
  \<open>read\<close> requires are set, and the text attributes are plain.
\<close>

definition well_formed :: "job \<Rightarrow> bool" where
  "well_formed j =
     (name j \<noteq> None \<and> walltime j \<noteq> None \<and> queue j \<noteq> None \<and> nodes j \<noteq> None
      \<and> ppn j \<noteq> None \<and> command j \<noteq> None
      \<and> plain_opt (name j) \<and> plain_opt (walltime j) \<and> plain_opt (queue j)
      \<and> plain_opt (account j) \<and> plain_opt (pmem j) \<and> plain_opt (exetime j)
      \<and> plain_opt (email j) \<and> plain_opt (message j) \<and> plain_opt (priority j))"

text \<open>A line of a text: it ends in its only newline.\<close>

definition is_line :: "string \<Rightarrow> bool" where
  "is_line l = (l \<noteq> [] \<and> last l = CHR ''\<newline>'' \<and> CHR ''\<newline>'' \<notin> set (butlast l))"

text \<open>The lines that \<open>qsub_string\<close> writes before the working-directory line.\<close>

definition header_lines :: "job \<Rightarrow> string list" where
  \<open>header_lines self =
     [''#!/bin/sh\<newline>'', ''#PBS -S /bin/sh\<newline>'', ''#PBS -N '' @ fmt (name self) @ ''\<newline>'']
     @ (if exetime self \<noteq> None then [''#PBS -a '' @ fmt (exetime self) @ ''\<newline>''] else [])
     @ (if account self \<noteq> None then [''#PBS -A '' @ fmt (account self) @ ''\<newline>''] else [])
     @ [''#PBS -l walltime='' @ fmt (walltime self) @ ''\<newline>'',
        ''#PBS -l nodes='' @ fmt_int (nodes self) @ '':ppn='' @ fmt_int (ppn self) @ ''\<newline>'']
     @ (if pmem self \<noteq> None then [''#PBS -l pmem='' @ fmt (pmem self) @ ''\<newline>''] else [])
     @ [''#PBS -l qos='' @ fmt (queue self) @ ''\<newline>'', ''#PBS -q '' @ fmt (queue self) @ ''\<newline>'']
     @ (if email self \<noteq> None \<and> message self \<noteq> None
        then [''#PBS -M '' @ fmt (email self) @ ''\<newline>'', ''#PBS -m '' @ fmt (message self) @ ''\<newline>'']
        else [])
     @ [''#PBS -V\<newline>'', ''#PBS -p '' @ fmt (priority self) @ ''\<newline>'', ''\<newline>'',
        ''#auto='' @ str_bool (auto self) @ ''\<newline>'', ''\<newline>'',
        ''echo "I ran on:"\<newline>'', ''cat $PBS_NODEFILE\<newline>'', ''\<newline>'']\<close>

text \<open>The job of the example script: only the required attributes and the defaults.\<close>

definition example_job :: job where
  "example_job =
     \<lparr>name = Some ''job1'', account = None, nodes = Some 2, ppn = Some 16,
      walltime = Some ''10:00:00'', pmem = None, queue = Some ''flux'', exetime = None,
      message = Some ''a'', email = None, priority = Some ''0'', command = Some ''echo hi'',
      auto = False, jobID = None\<rparr>"

section \<open>The loop, line by line\<close>

lemma sys_exit_NameError: "sys_exit = NameError ''sys''"
  by (simp add: sys_exit_def module_globals_def)

lemma parse_read: "parse text = read fresh text"
  by (simp add: parse_def init_def default_args_def)

lemma int_of_str_error: "int_of_str s = Inl e \<Longrightarrow> e = ValueError s"
  by (auto simp: int_of_str_def Let_def split: if_splits)

lemma set_nodes_error: "set_nodes line st = Inl e \<Longrightarrow> \<exists>s. e = ValueError s"
  by (auto simp: set_nodes_def split: option.splits sum.splits dest: int_of_str_error)

lemma pbs_block_error: "pbs_block line st = Inl e \<Longrightarrow> \<exists>s. e = ValueError s"
  by (auto simp: pbs_block_def set_resources_def split: if_splits sum.splits
      dest: set_nodes_error)

lemma auto_block_error:
  "auto_block line st = Inl e \<Longrightarrow> e = (Some (AutoNotUnderstood line), NameError ''sys'')"
  by (auto simp: auto_block_def sys_exit_NameError split: option.splits if_splits)

lemma body_error: "body line st = Inl e \<Longrightarrow> loop_error e"
  by (auto simp: body_def loop_error_def split: sum.splits
      dest: pbs_block_error auto_block_error)

lemma read_loop_error:
  assumes "read_loop st s = Some r"
  shows "\<forall>e. r = Inl e \<longrightarrow> loop_error e"
proof (rule read_loop.raw_induct
    [where P = "\<lambda>st s r. \<forall>e. r = Inl e \<longrightarrow> loop_error e", OF _ assms])
  fix f :: "read_state \<Rightarrow> string \<Rightarrow> (error + read_state) option" and st s r
  assume IH: "\<And>st s r. f st s = Some r \<Longrightarrow> \<forall>e. r = Inl e \<longrightarrow> loop_error e"
    and step: "(case readline s of
        (line, rest) \<Rightarrow>
          (case body line st of
             Inl e \<Rightarrow> Some (Inl e)
           | Inr st' \<Rightarrow>
               if re_search pat_cd line \<noteq> None
               then Some (Inr (found_cd rest st'))
               else f st' rest)) = Some r"
  show "\<forall>e. r = Inl e \<longrightarrow> loop_error e"
    using step IH
    by (auto split: prod.splits sum.splits if_splits dest: body_error)
qed

text \<open>At the end of the text \<open>readline\<close> returns the empty string, which changes nothing.\<close>

lemma body_empty: "body [] st = Inr st"
  by (simp add: body_def pbs_block_def auto_block_def pat_PBS_def pat_auto_def re_match_def
      rmatch_Star)

lemma not_cd_empty: "re_match pat_cd [] = None"
  by (simp add: pat_cd_def re_match_def rmatch_Star)

lemma read_loop_eof_some:
  assumes "read_loop st s = Some r"
  shows "s \<noteq> []"
proof (rule read_loop.raw_induct [where P = "\<lambda>st s r. s \<noteq> []", OF _ assms])
  fix f :: "read_state \<Rightarrow> string \<Rightarrow> (error + read_state) option" and st s r
  assume IH: "\<And>st s r. f st s = Some r \<Longrightarrow> s \<noteq> []"
    and step: "(case readline s of
        (line, rest) \<Rightarrow>
          (case body line st of
             Inl e \<Rightarrow> Some (Inl e)
           | Inr st' \<Rightarrow>
               if re_search pat_cd line \<noteq> None
               then Some (Inr (found_cd rest st'))
               else f st' rest)) = Some r"
  show "s \<noteq> []"
  proof
    assume "s = []"
    with step have "f st [] = Some r"
      by (simp add: body_empty not_cd_empty)
    then show False using IH by blast
  qed
qed

lemma read_loop_eof: "read_loop st [] = None"
  using read_loop_eof_some [of st "[]"] by (cases "read_loop st []") auto

lemma readline_split_lines:
  "s \<noteq> [] \<Longrightarrow> \<exists>l r. readline s = (l, r) \<and> split_lines s = l # split_lines r"
proof (induction s)
  case Nil
  then show ?case by simp
next
  case (Cons c cs)
  show ?case
  proof (cases "cs = []")
    case True
    then show ?thesis by simp
  next
    case False
    with Cons.IH obtain l r where "readline cs = (l, r)" "split_lines cs = l # split_lines r"
      by blast
    then show ?thesis by simp
  qed
qed

lemma split_lines_Nil: "split_lines s = [] \<longleftrightarrow> s = []"
  by (cases s) (auto split: list.splits)

lemma concat_split_lines: "concat (split_lines s) = s"
  by (induction s) (auto split: list.splits)

lemma split_lines_concat_tl: "split_lines s = l # ls \<Longrightarrow> split_lines (concat ls) = ls"
proof -
  assume a: "split_lines s = l # ls"
  then have "s \<noteq> []" by auto
  then obtain l' r where lr: "readline s = (l', r)" "split_lines s = l' # split_lines r"
    using readline_split_lines by blast
  with a have "ls = split_lines r" by auto
  then show ?thesis by (simp add: concat_split_lines)
qed

lemma read_loop_lines:
  "split_lines s = l # ls \<Longrightarrow>
   read_loop st s =
     (case body l st of
        Inl e \<Rightarrow> Some (Inl e)
      | Inr st' \<Rightarrow> if is_cd l then Some (Inr (found_cd (concat ls) st'))
                  else read_loop st' (concat ls))"
proof -
  assume a: "split_lines s = l # ls"
  then have "s \<noteq> []" by auto
  then obtain l' r where lr: "readline s = (l', r)" "split_lines s = l' # split_lines r"
    using readline_split_lines by blast
  with a have "l' = l" "ls = split_lines r" by auto
  then have "concat ls = r" by (simp add: concat_split_lines)
  with lr \<open>l' = l\<close> show ?thesis
    by (subst read_loop.simps) (simp add: is_cd_def split: sum.splits)
qed

text \<open>Without a working-directory line the loop ends in an exception or not at all.\<close>

lemma read_loop_no_anchor:
  "split_lines s = ls \<Longrightarrow> \<forall>l \<in> set ls. \<not> is_cd l \<Longrightarrow>
   read_loop st s = (case scan st ls of Inl e \<Rightarrow> Some (Inl e) | Inr st' \<Rightarrow> None)"
proof (induction ls arbitrary: s st)
  case Nil
  then show ?case by (simp add: split_lines_Nil read_loop_eof)
next
  case (Cons l ls)
  have "split_lines (concat ls) = ls" using Cons.prems(1) by (rule split_lines_concat_tl)
  then have "read_loop st' (concat ls) =
      (case scan st' ls of Inl e \<Rightarrow> Some (Inl e) | Inr st' \<Rightarrow> None)" for st'
    using Cons.IH Cons.prems(2) by simp
  then show ?case using Cons.prems
    by (simp add: read_loop_lines [OF Cons.prems(1)] split: sum.splits)
qed

text \<open>With one, the loop ends at the first such line and takes the rest as the command.\<close>

lemma read_loop_anchor:
  "split_lines s = pre @ l # post \<Longrightarrow> \<forall>x \<in> set pre. \<not> is_cd x \<Longrightarrow> is_cd l \<Longrightarrow>
   read_loop st s =
     (case scan st (pre @ [l]) of
        Inl e \<Rightarrow> Some (Inl e)
      | Inr st' \<Rightarrow> Some (Inr (found_cd (concat post) st')))"
proof (induction pre arbitrary: s st)
  case Nil
  then show ?case
    by (simp add: read_loop_lines [of s l post] split: sum.splits)
next
  case (Cons x pre)
  have sl: "split_lines s = x # (pre @ l # post)" using Cons.prems(1) by simp
  have "split_lines (concat (pre @ l # post)) = pre @ l # post"
    using sl by (rule split_lines_concat_tl)
  then have "read_loop st' (concat (pre @ l # post)) =
     (case scan st' (pre @ [l]) of
        Inl e \<Rightarrow> Some (Inl e)
      | Inr st'' \<Rightarrow> Some (Inr (found_cd (concat post) st'')))" for st'
    using Cons.IH Cons.prems by simp
  then show ?case using Cons.prems
    by (simp add: read_loop_lines [OF sl] split: sum.splits)
qed

section \<open>Failure paths and \<open>sys.exit()\<close>\<close>

text \<open>
  Claim C9. Both failure paths of \<open>read\<close> that print a diagnostic, the complaint about an
  \<open>auto=\<close> value and the report of missing required arguments, then call \<open>sys.exit()\<close>.
  The module never imports \<open>sys\<close>, so whenever parsing fails after printing a diagnostic
  the exception raised is \<open>NameError\<close> for the name \<open>sys\<close>, never \<open>SystemExit\<close>; the
  only other exception is the \<open>ValueError\<close> of \<open>int()\<close>, which prints nothing.
\<close>

theorem parse_failure_raises_NameError:
  "parse text = Some (Inl (d, e)) \<Longrightarrow>
     e \<noteq> SystemExit
     \<and> (d \<noteq> None \<longleftrightarrow> e = NameError ''sys'')
     \<and> (d = None \<longleftrightarrow> (\<exists>s. e = ValueError s))"
  by (auto simp: parse_read read_def check_required_def sys_exit_NameError loop_error_def
      split: option.splits sum.splits if_splits dest!: read_loop_error)

theorem parse_failure_raises_NameError_witness:
  "parse ''#auto=maybe\<newline>''
     = Some (Inl (Some (AutoNotUnderstood ''#auto=maybe\<newline>''), NameError ''sys''))
   \<and> parse ''#PBS -N job1\<newline>cd $PBS_O_WORKDIR\<newline>echo hi\<newline>''
     = Some (Inl (Some (MissingRequired
         (optional (read_init fresh))
         [(''name'', PStr ''job1''), (''walltime'', PStr ''Not Found''),
          (''nodes'', PStr ''Not Found''), (''ppn'', PStr ''Not Found''),
          (''queue'', PStr ''Not Found''), (''cd $PBS_O_WORKDIR'', PStr ''Found''),
          (''command'', PStr ''echo hi\<newline>'')]), NameError ''sys''))"
proof -
  have a: "parse ''#auto=maybe\<newline>''
      = Some (Inl (Some (AutoNotUnderstood ''#auto=maybe\<newline>''), sys_exit))"
    by code_simp
  have b: "parse ''#PBS -N job1\<newline>cd $PBS_O_WORKDIR\<newline>echo hi\<newline>''
     = Some (Inl (Some (MissingRequired
         (optional (read_init fresh))
         [(''name'', PStr ''job1''), (''walltime'', PStr ''Not Found''),
          (''nodes'', PStr ''Not Found''), (''ppn'', PStr ''Not Found''),
          (''queue'', PStr ''Not Found''), (''cd $PBS_O_WORKDIR'', PStr ''Found''),
          (''command'', PStr ''echo hi\<newline>'')]), sys_exit))"
    by code_simp
  show ?thesis
    using a b parse_failure_raises_NameError [OF a] parse_failure_raises_NameError [OF b]
    by simp
qed

lemma parse_read_loop:
  "parse text = (case read_loop (read_init fresh) text of
        None \<Rightarrow> None
      | Some (Inl e) \<Rightarrow> Some (Inl e)
      | Some (Inr st) \<Rightarrow> Some (check_required st))"
  by (simp add: parse_read read_def)

lemma scan_error: "scan st ls = Inl e \<Longrightarrow> loop_error e"
  by (induction ls arbitrary: st) (auto split: sum.splits dest: body_error)

section \<open>Texts without a working-directory line\<close>

text \<open>
  Claim C2. The claim is that parsing a text in which no line matches the
  working-directory pattern terminates and fails with the report of missing required
  arguments. The code does not: at the end of the text \<open>readline\<close> keeps returning the
  empty string and \<open>while True\<close> is never left. For every text without such a line the
  loop either raises from inside (the \<open>ValueError\<close> of \<open>int()\<close> or the failed
  \<open>sys.exit()\<close> after an \<open>auto=\<close> complaint) or, when every line is processed without
  an exception, runs forever; the report of missing arguments is never printed.
\<close>

theorem parse_without_anchor:
  "\<forall>l \<in> set (split_lines text). \<not> is_cd l \<Longrightarrow>
     (case scan (read_init fresh) (split_lines text) of
        Inl e \<Rightarrow> parse text = Some (Inl e) \<and> loop_error e
      | Inr st \<Rightarrow> parse text = None)"
  by (auto simp: parse_read_loop read_loop_no_anchor [OF refl] split: sum.splits
      dest: scan_error)

theorem parse_without_anchor_witness:
  "list_all (\<lambda>l. \<not> is_cd l) (split_lines ''#PBS -N job1\<newline>#PBS -l walltime=10:00:00\<newline>#PBS -l nodes=2:ppn=16\<newline>#PBS -q flux\<newline>echo hi\<newline>'')
   \<and> parse ''#PBS -N job1\<newline>#PBS -l walltime=10:00:00\<newline>#PBS -l nodes=2:ppn=16\<newline>#PBS -q flux\<newline>echo hi\<newline>'' = None"
proof -
  let ?t = "''#PBS -N job1\<newline>#PBS -l walltime=10:00:00\<newline>#PBS -l nodes=2:ppn=16\<newline>#PBS -q flux\<newline>echo hi\<newline>''"
  have h: "\<forall>l \<in> set (split_lines ?t). \<not> is_cd l" by code_simp
  have s: "(case scan (read_init fresh) (split_lines ?t) of Inl e \<Rightarrow> False | Inr st \<Rightarrow> True)"
    by code_simp
  show ?thesis
    using h s parse_without_anchor [OF h] by (auto simp: list_all_iff split: sum.splits)
qed

text \<open>
  Claim C8. The claim is that for every input text the parser either returns a complete
  \<open>Job\<close> or reports failure. On the empty text it does neither: the loop never ends.
\<close>

theorem parse_empty_text_diverges: "parse [] = None"
  by (simp add: parse_read_loop read_loop_eof)


section \<open>The command after the working-directory line\<close>

lemma list_ex_update_value:
  "v \<noteq> w \<Longrightarrow> v' \<noteq> w \<Longrightarrow>
   list_ex (\<lambda>kv. snd kv = w) (AList.update k v xs) = list_ex (\<lambda>kv. snd kv = w) (AList.update k v' xs)"
  by (induction xs) auto

lemma update_mem: "(k, v) \<in> set (AList.update k v xs)"
  by (induction xs) auto

lemma check_required_found_cd:
  assumes "check_required (found_cd rest st) = Inr j" and "rest' \<noteq> ''Not Found''"
  shows "command j = Some rest" and "rest \<noteq> ''Not Found''"
    and "check_required (found_cd rest' st) = Inr (j\<lparr>command := Some rest'\<rparr>)"
proof -
  let ?req = "AList.update ''cd $PBS_O_WORKDIR'' (PStr ''Found'') (required st)"
  from assms(1) have ok: "\<not> list_ex (\<lambda>kv. snd kv = PStr ''Not Found'') (AList.update ''command'' (PStr rest) ?req)"
    and j: "j = job.truncate (found_cd rest st)"
    by (auto simp: check_required_def found_cd_def split: if_splits)
  show "command j = Some rest" using j by (simp add: found_cd_def job.truncate_def)
  show r: "rest \<noteq> ''Not Found''"
  proof
    assume "rest = ''Not Found''"
    then have "(''command'', PStr ''Not Found'') \<in> set (AList.update ''command'' (PStr rest) ?req)"
      by (simp add: update_mem)
    with ok show False by (auto simp: list_ex_iff)
  qed
  have "\<not> list_ex (\<lambda>kv. snd kv = PStr ''Not Found'') (AList.update ''command'' (PStr rest') ?req)"
    using ok list_ex_update_value [of "PStr rest" "PStr ''Not Found''" "PStr rest'" "''command''" ?req]
      r assms(2) by simp
  then show "check_required (found_cd rest' st) = Inr (j\<lparr>command := Some rest'\<rparr>)"
    using j by (simp add: check_required_def found_cd_def job.truncate_def)
qed

text \<open>
  Claim C7. For every text with a line matching the working-directory pattern, parsing
  terminates; when it returns a \<open>Job\<close>, the command is the text after the first such line,
  verbatim, and nothing in that text is read as a directive: replacing it by any other
  text (other than the marker \<open>Not Found\<close> itself) changes the command and nothing else.
\<close>

theorem command_after_first_anchor:
  assumes "split_lines text = pre @ l # post" and "\<forall>x \<in> set pre. \<not> is_cd x" and "is_cd l"
  shows "(\<exists>r. parse text = Some r)
       \<and> (\<forall>j. parse text = Some (Inr j) \<longrightarrow>
             command j = Some (concat post)
           \<and> (\<forall>text' post'. split_lines text' = pre @ l # post' \<and> concat post' \<noteq> ''Not Found''
                 \<longrightarrow> parse text' = Some (Inr (j\<lparr>command := Some (concat post')\<rparr>))))"
proof (cases "scan (read_init fresh) (pre @ [l])")
  case (Inl e)
  then have "parse text = Some (Inl e)"
    by (simp add: parse_read_loop read_loop_anchor [OF assms])
  then show ?thesis by simp
next
  case (Inr st)
  then have p: "parse text = Some (check_required (found_cd (concat post) st))"
    by (simp add: parse_read_loop read_loop_anchor [OF assms])
  have "parse text' = Some (Inr (j\<lparr>command := Some (concat post')\<rparr>))"
    if j: "parse text = Some (Inr j)" and t: "split_lines text' = pre @ l # post'"
      and nf: "concat post' \<noteq> ''Not Found''" for j text' post'
  proof -
    from p j have c: "check_required (found_cd (concat post) st) = Inr j" by simp
    have "parse text' = Some (check_required (found_cd (concat post') st))"
      using Inr by (simp add: parse_read_loop read_loop_anchor [OF t assms(2,3)])
    then show ?thesis using check_required_found_cd(3) [OF c nf] by simp
  qed
  moreover have "command j = Some (concat post)" if j: "parse text = Some (Inr j)" for j
  proof -
    from p j have c: "check_required (found_cd (concat post) st) = Inr j" by simp
    show ?thesis using check_required_found_cd(1) [OF c, of "[]"] by simp
  qed
  ultimately show ?thesis using p by blast
qed


theorem command_after_first_anchor_witness:
  "split_lines ''#PBS -N job1\<newline>#PBS -l walltime=10:00:00\<newline>#PBS -l nodes=2:ppn=16\<newline>#PBS -q flux\<newline>cd $PBS_O_WORKDIR\<newline>#PBS -N other\<newline>#auto=maybe\<newline>''
     = [''#PBS -N job1\<newline>'', ''#PBS -l walltime=10:00:00\<newline>'', ''#PBS -l nodes=2:ppn=16\<newline>'',
        ''#PBS -q flux\<newline>''] @ ''cd $PBS_O_WORKDIR\<newline>'' # [''#PBS -N other\<newline>'', ''#auto=maybe\<newline>'']
   \<and> list_all (\<lambda>x. \<not> is_cd x) [''#PBS -N job1\<newline>'', ''#PBS -l walltime=10:00:00\<newline>'',
                   ''#PBS -l nodes=2:ppn=16\<newline>'', ''#PBS -q flux\<newline>'']
   \<and> is_cd ''cd $PBS_O_WORKDIR\<newline>''
   \<and> parse ''#PBS -N job1\<newline>#PBS -l walltime=10:00:00\<newline>#PBS -l nodes=2:ppn=16\<newline>#PBS -q flux\<newline>cd $PBS_O_WORKDIR\<newline>#PBS -N other\<newline>#auto=maybe\<newline>''
     = Some (Inr \<lparr>name = Some ''job1'', account = None, nodes = Some 2, ppn = Some 16,
          walltime = Some ''10:00:00'', pmem = None, queue = Some ''flux'', exetime = None,
          message = Some ''a'', email = None, priority = Some ''0'',
          command = Some (concat [''#PBS -N other\<newline>'', ''#auto=maybe\<newline>'']),
          auto = False, jobID = None\<rparr>)"
proof -
  let ?t = "''#PBS -N job1\<newline>#PBS -l walltime=10:00:00\<newline>#PBS -l nodes=2:ppn=16\<newline>#PBS -q flux\<newline>cd $PBS_O_WORKDIR\<newline>#PBS -N other\<newline>#auto=maybe\<newline>''"
  let ?pre = "[''#PBS -N job1\<newline>'', ''#PBS -l walltime=10:00:00\<newline>'', ''#PBS -l nodes=2:ppn=16\<newline>'',
        ''#PBS -q flux\<newline>'']"
  let ?post = "[''#PBS -N other\<newline>'', ''#auto=maybe\<newline>'']"
  have a: "split_lines ?t = ?pre @ ''cd $PBS_O_WORKDIR\<newline>'' # ?post" by code_simp
  have b: "\<forall>x \<in> set ?pre. \<not> is_cd x" by code_simp
  have c: "is_cd ''cd $PBS_O_WORKDIR\<newline>''" by code_simp
  have d: "parse ?t = Some (Inr \<lparr>name = Some ''job1'', account = None, nodes = Some 2, ppn = Some 16,
          walltime = Some ''10:00:00'', pmem = None, queue = Some ''flux'', exetime = None,
          message = Some ''a'', email = None, priority = Some ''0'',
          command = Some ''#PBS -N other\<newline>#auto=maybe\<newline>'',
          auto = False, jobID = None\<rparr>)" by code_simp
  show ?thesis
    using a b c d command_after_first_anchor [OF a b c] by (simp add: list_all_iff)
qed

section \<open>The constructor\<close>

lemma dropWhile_hd: "xs \<noteq> [] \<Longrightarrow> \<not> P (hd xs) \<Longrightarrow> dropWhile P xs = xs"
  by (cases xs) auto

lemma takeWhile_all_then_not:
  "list_all P xs \<Longrightarrow> list_all Q ys \<Longrightarrow> (\<And>x. Q x \<Longrightarrow> \<not> P x) \<Longrightarrow>
   takeWhile P (xs @ ys) = xs \<and> dropWhile P (xs @ ys) = ys"
  by (induction xs) (auto simp: list_all_iff takeWhile_eq_Nil_iff dropWhile_eq_self_iff hd_in_set)

lemma digit_not_space: "isdigit c \<Longrightarrow> \<not> isspace c"
  by (auto simp: isdigit_def isspace_def)

lemma space_not_digit: "isspace c \<Longrightarrow> \<not> isdigit c"
  by (auto simp: isdigit_def isspace_def)

lemma int_of_str_literal:
  assumes "list_all isspace w1" "sg \<in> {[], ''-'', ''+''}" "ds \<noteq> []" "list_all isdigit ds"
    "list_all isspace w2"
  shows "int_of_str (w1 @ sg @ ds @ w2)
     = Inr (if sg = ''-'' then - int (digits_val 0 ds) else int (digits_val 0 ds))"
proof -
  have hd_ds: "isdigit (hd ds)" using assms(3,4) by (cases ds) auto
  have ne: "sg @ ds @ w2 \<noteq> []" using assms(3) by simp
  have "\<not> isspace (hd (sg @ ds @ w2))"
    using assms(2,3) hd_ds by (auto simp: isspace_def dest: digit_not_space)
  then have t: "dropWhile isspace (w1 @ sg @ ds @ w2) = sg @ ds @ w2"
    using assms(1) ne by (simp add: dropWhile_append2 list_all_iff dropWhile_hd)
  have td: "takeWhile isdigit (ds @ w2) = ds \<and> dropWhile isdigit (ds @ w2) = w2"
    using assms(4,5) by (rule takeWhile_all_then_not) (rule space_not_digit)
  have hd_no_sign: "hd ds \<noteq> CHR ''-'' \<and> hd ds \<noteq> CHR ''+''"
    using hd_ds by (auto simp: isdigit_def)
  show ?thesis
    using assms(2,3,5) t td hd_no_sign
    by (auto simp: int_of_str_def Let_def)
qed

lemma int_of_str_Inr_literal:
  assumes "int_of_str s = Inr i"
  shows "int_literal s"
proof -
  define t where "t = dropWhile isspace s"
  define u where "u = (if t \<noteq> [] \<and> (hd t = CHR ''-'' \<or> hd t = CHR ''+'') then tl t else t)"
  define sg where "sg = (if t \<noteq> [] \<and> (hd t = CHR ''-'' \<or> hd t = CHR ''+'') then [hd t] else [])"
  from assms have ds: "takeWhile isdigit u \<noteq> []" and r: "list_all isspace (dropWhile isdigit u)"
    by (auto simp: int_of_str_def Let_def t_def u_def split: if_splits)
  have "s = takeWhile isspace s @ t" by (simp add: t_def)
  moreover have "t = sg @ u" by (cases t) (auto simp: sg_def u_def)
  moreover have "u = takeWhile isdigit u @ dropWhile isdigit u" by simp
  ultimately have "s = takeWhile isspace s @ sg @ takeWhile isdigit u @ dropWhile isdigit u"
    by metis
  moreover have "list_all isspace (takeWhile isspace s)"
    by (auto simp: list_all_iff dest: set_takeWhileD)
  moreover have "list_all isdigit (takeWhile isdigit u)"
    by (auto simp: list_all_iff dest: set_takeWhileD)
  moreover have "sg \<in> {[], ''-'', ''+''}" by (auto simp: sg_def)
  ultimately show ?thesis using ds r unfolding int_literal_def by blast
qed

lemma int_of_str_Inr_iff: "(\<exists>i. int_of_str s = Inr i) \<longleftrightarrow> int_literal s"
proof
  assume "\<exists>i. int_of_str s = Inr i"
  then show "int_literal s" by (auto dest: int_of_str_Inr_literal)
next
  assume "int_literal s"
  then show "\<exists>i. int_of_str s = Inr i"
    unfolding int_literal_def using int_of_str_literal by blast
qed

text \<open>
  Claim C10. Without \<open>qsubstr\<close> the constructor applies \<open>int()\<close> to \<open>nodes\<close> and to
  \<open>ppn\<close> whatever the other arguments are. It returns a \<open>Job\<close> exactly when both
  conversions succeed, and raises, returning no object, when either argument is \<open>None\<close>
  (its default) or a string that is not an integer literal.
\<close>

theorem init_coerces_nodes_and_ppn:
  assumes "a_qsubstr a = None"
  shows "(\<forall>j. init a = Some (Inr j) \<longleftrightarrow>
            (\<exists>n p. py_int (a_nodes a) = Inr n \<and> py_int (a_ppn a) = Inr p
               \<and> j = \<lparr>name = a_name a, account = a_account a, nodes = Some n, ppn = Some p,
                      walltime = a_walltime a, pmem = a_pmem a, queue = a_queue a,
                      exetime = a_exetime a, message = a_message a, email = a_email a,
                      priority = a_priority a, command = a_command a,
                      auto = py_bool (a_auto a), jobID = None\<rparr>))
       \<and> (a_nodes a = PNone \<or> a_ppn a = PNone \<longrightarrow> (\<exists>e. init a = Some (Inl e)))
       \<and> (\<forall>s. (a_nodes a = PStr s \<or> a_ppn a = PStr s) \<and> \<not> int_literal s
              \<longrightarrow> (\<exists>e. init a = Some (Inl e)))"
proof -
  have nl: "\<not> int_literal s \<Longrightarrow> \<exists>e. int_of_str s = Inl e" for s
    using int_of_str_Inr_iff [of s] by (cases "int_of_str s") auto
  show ?thesis
    using assms by (auto simp: init_def split: sum.splits dest: nl)
qed

theorem init_coerces_nodes_and_ppn_witness:
  "a_qsubstr default_args = None
   \<and> init default_args = Some (Inl (None, TypeError ''int() argument must be a string or a number''))
   \<and> init (default_args\<lparr>a_nodes := PInt 2, a_ppn := PStr ''16''\<rparr>)
       = Some (Inr \<lparr>name = Some ''STDIN'', account = None, nodes = Some 2, ppn = Some 16,
                    walltime = None, pmem = None, queue = None, exetime = None,
                    message = Some ''a'', email = None, priority = Some ''0'',
                    command = None, auto = False, jobID = None\<rparr>)"
proof -
  have h: "a_qsubstr default_args = None" by (simp add: default_args_def)
  have h2: "a_qsubstr (default_args\<lparr>a_nodes := PInt 2, a_ppn := PStr ''16''\<rparr>) = None"
    by (simp add: default_args_def)
  have n: "a_nodes default_args = PNone" by (simp add: default_args_def)
  have e: "init default_args = Some (Inl (None, TypeError ''int() argument must be a string or a number''))"
    by code_simp
  have p: "py_int (a_nodes (default_args\<lparr>a_nodes := PInt 2, a_ppn := PStr ''16''\<rparr>)) = Inr 2"
    "py_int (a_ppn (default_args\<lparr>a_nodes := PInt 2, a_ppn := PStr ''16''\<rparr>)) = Inr 16"
    by code_simp+
  show ?thesis
    using h e n p init_coerces_nodes_and_ppn [OF h] init_coerces_nodes_and_ppn [OF h2]
    by (simp add: default_args_def)
qed

section \<open>The \<open>auto=\<close> comment\<close>

lemma rmatch_Star_nonempty [simp]: "rmatch (Star r) s c \<noteq> []"
  by (simp add: rmatch_Star)

lemma re_match_pat_false: "re_match pat_false v \<noteq> None \<longleftrightarrow> v \<noteq> [] \<and> hd v \<in> set ''fF0''"
  by (cases v) (auto simp: re_match_def pat_false_def split: list.splits)

lemma re_match_pat_true: "re_match pat_true v \<noteq> None \<longleftrightarrow> v \<noteq> [] \<and> hd v \<in> set ''tT1''"
  by (cases v) (auto simp: re_match_def pat_true_def split: list.splits)

lemma lower_cases:
  "lower c = CHR ''t'' \<Longrightarrow> c = CHR ''t'' \<or> c = CHR ''T''"
  "lower c = CHR ''f'' \<Longrightarrow> c = CHR ''f'' \<or> c = CHR ''F''"
  "lower c = CHR ''1'' \<Longrightarrow> c = CHR ''1''"
  "lower c = CHR ''0'' \<Longrightarrow> c = CHR ''0''"
  by (auto simp: lower_def split: if_splits)

lemma spec_auto_value_hd:
  "spec_auto_value v = Some True \<Longrightarrow> v \<noteq> [] \<and> hd v \<in> set ''tT1''"
  "spec_auto_value v = Some False \<Longrightarrow> v \<noteq> [] \<and> hd v \<in> set ''fF0''"
  by (cases v; auto simp: spec_auto_value_def split: if_splits dest: lower_cases)+

text \<open>
  Claim C5, as amended. The value captured after \<open>auto=\<close> is tested with \<open>re.match\<close>,
  which looks at the start of the value only. It is accepted exactly when its first
  character is \<open>f\<close>, \<open>F\<close> or \<open>0\<close> (parsed as false) or \<open>t\<close>, \<open>T\<close> or \<open>1\<close>
  (parsed as true). So every spelling of \<open>true\<close>, \<open>t\<close>, \<open>1\<close>, \<open>false\<close>, \<open>f\<close>, \<open>0\<close>
  in any case is accepted with the value the specification gives, and any other value,
  the empty one included, fails at once with the complaint about \<open>auto=\<close>, which is not
  the report of missing required arguments.
\<close>

theorem auto_value_by_first_character:
  assumes "re_search pat_auto line = Some m"
  shows "auto_block line st =
           (if group m 1 \<noteq> [] \<and> hd (group m 1) \<in> set ''fF0''
            then Inr (st\<lparr>auto := False,
                         optional := AList.update ''auto'' (PBool False) (optional st)\<rparr>)
            else if group m 1 \<noteq> [] \<and> hd (group m 1) \<in> set ''tT1''
            then Inr (st\<lparr>auto := True,
                         optional := AList.update ''auto'' (PBool True) (optional st)\<rparr>)
            else Inl (Some (AutoNotUnderstood line), NameError ''sys''))
       \<and> (\<forall>b. spec_auto_value (group m 1) = Some b \<longrightarrow>
             auto_block line st
               = Inr (st\<lparr>auto := b, optional := AList.update ''auto'' (PBool b) (optional st)\<rparr>))"
proof -
  have a: "auto_block line st =
           (if group m 1 \<noteq> [] \<and> hd (group m 1) \<in> set ''fF0''
            then Inr (st\<lparr>auto := False,
                         optional := AList.update ''auto'' (PBool False) (optional st)\<rparr>)
            else if group m 1 \<noteq> [] \<and> hd (group m 1) \<in> set ''tT1''
            then Inr (st\<lparr>auto := True,
                         optional := AList.update ''auto'' (PBool True) (optional st)\<rparr>)
            else Inl (Some (AutoNotUnderstood line), NameError ''sys''))"
    unfolding auto_block_def
    by (simp only: assms option.case re_match_pat_false re_match_pat_true sys_exit_NameError)
  have "auto_block line st
               = Inr (st\<lparr>auto := b, optional := AList.update ''auto'' (PBool b) (optional st)\<rparr>)"
    if "spec_auto_value (group m 1) = Some b" for b
    using that spec_auto_value_hd [of "group m 1"] by (cases b) (auto simp: a)
  with a show ?thesis by blast
qed

theorem auto_value_by_first_character_witness:
  "re_search pat_auto ''#auto=TRUE\<newline>'' = Some [(1, ''TRUE'')]
   \<and> auto_block ''#auto=TRUE\<newline>'' (read_init fresh)
       = Inr ((read_init fresh)\<lparr>auto := True,
               optional := AList.update ''auto'' (PBool True) (optional (read_init fresh))\<rparr>)
   \<and> auto_block ''#auto=t\<newline>'' (read_init fresh)
       = Inr ((read_init fresh)\<lparr>auto := True,
               optional := AList.update ''auto'' (PBool True) (optional (read_init fresh))\<rparr>)
   \<and> auto_block ''#auto=1\<newline>'' (read_init fresh)
       = Inr ((read_init fresh)\<lparr>auto := True,
               optional := AList.update ''auto'' (PBool True) (optional (read_init fresh))\<rparr>)
   \<and> auto_block ''#auto=maybe\<newline>'' (read_init fresh)
       = Inl (Some (AutoNotUnderstood ''#auto=maybe\<newline>''), NameError ''sys'')"
proof -
  have 1: "re_search pat_auto ''#auto=TRUE\<newline>'' = Some [(1, ''TRUE'')]" by code_simp
  have 2: "re_search pat_auto ''#auto=t\<newline>'' = Some [(1, ''t'')]" by code_simp
  have 3: "re_search pat_auto ''#auto=1\<newline>'' = Some [(1, ''1'')]" by code_simp
  have 4: "re_search pat_auto ''#auto=maybe\<newline>'' = Some [(1, ''maybe'')]" by code_simp
  show ?thesis
    using 1 auto_value_by_first_character [OF 1, of "read_init fresh"]
      auto_value_by_first_character [OF 2, of "read_init fresh"]
      auto_value_by_first_character [OF 3, of "read_init fresh"]
      auto_value_by_first_character [OF 4, of "read_init fresh"]
    by (simp add: group_def)
qed

text \<open>
  The claim as stated fails: \<open>tomato\<close> is none of the six values, yet a script with
  \<open>#auto=tomato\<close> parses, with \<open>auto\<close> true.
\<close>

theorem auto_value_counterexample:
  "spec_auto_value ''tomato'' = None
   \<and> parse ''#PBS -N job1\<newline>#PBS -l walltime=10:00:00\<newline>#PBS -l nodes=2:ppn=16\<newline>#PBS -q flux\<newline>#auto=tomato\<newline>cd $PBS_O_WORKDIR\<newline>echo hi\<newline>''
     = Some (Inr \<lparr>name = Some ''job1'', account = None, nodes = Some 2, ppn = Some 16,
          walltime = Some ''10:00:00'', pmem = None, queue = Some ''flux'', exetime = None,
          message = Some ''a'', email = None, priority = Some ''0'',
          command = Some ''echo hi\<newline>'', auto = True, jobID = None\<rparr>)"
  by code_simp

section \<open>Matching a directive and its value\<close>

text \<open>From here on the equation for a sequence is unfolded by hand, like the one for repetition.\<close>

lemmas rmatch_Seq = rmatch.simps(6)

declare rmatch.simps(6) [simp del]

lemma nospace_Nil [simp]: "nospace []"
  by (simp add: nospace_def)

lemma nospace_Cons [simp]: "nospace (x # xs) \<longleftrightarrow> \<not> isspace x \<and> nospace xs"
  by (simp add: nospace_def)

lemma nospace_append [simp]: "nospace (xs @ ys) \<longleftrightarrow> nospace xs \<and> nospace ys"
  by (simp add: nospace_def)

lemma nospace_drop: "nospace xs \<Longrightarrow> nospace (drop n xs)"
  by (auto simp: nospace_def list_all_iff dest: in_set_dropD)

lemma plain_nospace: "plain v \<Longrightarrow> nospace v"
  by (auto simp: plain_def nospace_def list_all_iff)

lemma plain_no_eq: "plain v \<Longrightarrow> CHR ''='' \<notin> set v"
  by (auto simp: plain_def list_all_iff)

lemma nospace_no_newline: "nospace v \<Longrightarrow> CHR ''\<newline>'' \<notin> set v"
  by (auto simp: nospace_def list_all_iff isspace_def)

lemma isspace_newline [simp]: "isspace CHR ''\<newline>''"
  by (simp add: isspace_def)

lemma isspace_blank [simp]: "isspace CHR '' ''"
  by (simp add: isspace_def)

lemma rmatch_Seq_Str:
  "rmatch (Seq (Str f) X) s c = (if prefix f s then rmatch X (drop (length f) s) c else [])"
  by (simp add: rmatch_Seq)

lemma rmatch_Seq_Space:
  "rmatch (Seq Space X) s c =
     (case s of [] \<Rightarrow> [] | x # xs \<Rightarrow> if isspace x then rmatch X xs c else [])"
  by (cases s) (auto simp: rmatch_Seq)

lemma star_dot:
  "CHR ''\<newline>'' \<notin> set V \<Longrightarrow>
   rmatch (Star Dot) (V @ CHR ''\<newline>'' # t) c = map (\<lambda>u. (c, u @ CHR ''\<newline>'' # t)) (suffixes V)"
proof (induction V)
  case Nil
  then show ?case by (simp add: rmatch_Star)
next
  case (Cons x V)
  then show ?case by (subst rmatch_Star) auto
qed

lemma star_space:
  "list_all isspace W \<Longrightarrow> t = [] \<or> \<not> isspace (hd t) \<Longrightarrow>
   rmatch (Star Space) (W @ t) c = map (\<lambda>u. (c, u @ t)) (suffixes W)"
proof (induction W)
  case Nil
  then show ?case by (cases t) (auto simp: rmatch_Star)
next
  case (Cons x W)
  then show ?case by (subst rmatch_Star) simp
qed

lemma grp_star_dot:
  "CHR ''\<newline>'' \<notin> set V \<Longrightarrow>
   rmatch (Grp n (Star Dot)) (V @ CHR ''\<newline>'' # t) c
     = map (\<lambda>u. ((n, take (length V - length u) V) # c, u @ CHR ''\<newline>'' # t)) (suffixes V)"
  by (simp add: star_dot comp_def)

lemma space_after_suffixes:
  "nospace V \<Longrightarrow>
   concat (map (\<lambda>u. rmatch Space (u @ ''\<newline>'') (h u)) (suffixes V)) = [(h [], [])]"
  by (induction V) auto

lemma space_after_suffixes_hd:
  "CHR ''\<newline>'' \<notin> set V \<Longrightarrow>
   \<exists>rest. concat (map (\<lambda>u. rmatch Space (u @ ''\<newline>'') (h u)) (suffixes V)) = (h [], []) # rest"
  by (induction V) auto

lemma seq_grp_dot_space:
  "CHR ''\<newline>'' \<notin> set V \<Longrightarrow>
   rmatch (Seq (Grp n (Star Dot)) Space) (V @ ''\<newline>'') c
     = concat (map (\<lambda>u. rmatch Space (u @ ''\<newline>'') ((n, take (length V - length u) V) # c))
                   (suffixes V))"
proof -
  assume nl: "CHR ''\<newline>'' \<notin> set V"
  have "rmatch (Seq (Grp n (Star Dot)) Space) (V @ ''\<newline>'') c
      = concat (map (\<lambda>p. rmatch Space (snd p) (fst p)) (rmatch (Grp n (Star Dot)) (V @ ''\<newline>'') c))"
    by (rule rmatch_Seq)
  then show ?thesis
    by (simp only: grp_star_dot [OF nl] map_map comp_def fst_conv snd_conv)
qed

lemma grp_dot_space:
  "nospace V \<Longrightarrow> rmatch (Seq (Grp n (Star Dot)) Space) (V @ ''\<newline>'') c = [((n, V) # c, [])]"
  using space_after_suffixes [of V "\<lambda>u. (n, take (length V - length u) V) # c"]
  by (simp add: seq_grp_dot_space nospace_no_newline)

lemma grp_dot_space_hd:
  "CHR ''\<newline>'' \<notin> set V \<Longrightarrow>
   \<exists>rest. rmatch (Seq (Grp n (Star Dot)) Space) (V @ ''\<newline>'') c = ((n, V) # c, []) # rest"
  using space_after_suffixes_hd [of V "\<lambda>u. (n, take (length V - length u) V) # c"]
  by (simp add: seq_grp_dot_space)

lemma grp_dot_space_Nil [simp]: "rmatch (Seq (Grp n (Star Dot)) Space) [] c = []"
  by (simp add: rmatch_Star rmatch_Seq)

lemma flag_tail:
  "nospace V \<Longrightarrow>
   rmatch (Seq (Plus Space) (Seq (Grp n (Star Dot)) Space)) (CHR '' '' # V @ ''\<newline>'') c
     = [((n, V) # c, [])]"
proof (cases V)
  case Nil
  have "rmatch (Star Space) (''\<newline>'' @ []) c = map (\<lambda>u. (c, u @ [])) (suffixes ''\<newline>'')"
    by (rule star_space) simp_all
  then have "rmatch (Star Space) ''\<newline>'' c = [(c, []), (c, ''\<newline>'')]" by simp
  moreover have "rmatch (Seq (Grp n (Star Dot)) Space) ([] @ ''\<newline>'') c = [((n, []) # c, [])]"
    by (rule grp_dot_space) simp
  ultimately show ?thesis using Nil
    by (simp add: rmatch_Seq [of "Seq Space (Star Space)"] rmatch_Seq_Space)
next
  case (Cons x xs)
  assume ns: "nospace V"
  have "rmatch (Star Space) ([] @ V @ ''\<newline>'') c = map (\<lambda>u. (c, u @ V @ ''\<newline>'')) (suffixes [])"
    using Cons ns by (intro star_space) simp_all
  then have "rmatch (Star Space) (V @ ''\<newline>'') c = [(c, V @ ''\<newline>'')]" by simp
  then show ?thesis using grp_dot_space [OF ns, of n c]
    by (simp add: rmatch_Seq [of "Seq Space (Star Space)"] rmatch_Seq_Space)
qed

lemma drop_le_append: "n \<le> length xs \<Longrightarrow> drop n (xs @ ys) = drop n xs @ ys"
  by simp

lemma plus_space_fail:
  "nospace V \<Longrightarrow> (\<And>c. rmatch R [] c = []) \<Longrightarrow> rmatch (Seq (Plus Space) R) (V @ ''\<newline>'') c = []"
  by (cases V) (auto simp: rmatch_Star rmatch_Seq)

lemma prefix_nospace_snoc:
  "prefix f (V @ ''\<newline>'') \<Longrightarrow> nospace f \<Longrightarrow> prefix f V"
  by (auto simp: prefix_snoc)

lemma search_flag_tail:
  assumes "nospace f" "f \<noteq> []" "\<And>c. rmatch R [] c = []"
  shows "nospace V \<Longrightarrow> re_search (Seq (Str f) (Seq (Plus Space) R)) (V @ ''\<newline>'') = None"
proof (induction V)
  case Nil
  have "\<not> prefix f ''\<newline>''" using assms(1,2) by (cases f) auto
  then show ?case using assms(2) by (simp add: re_match_def rmatch_Seq_Str)
next
  case (Cons x V)
  have "rmatch (Seq (Plus Space) R) (drop (length f) ((x # V) @ ''\<newline>'')) [] = []"
    if p: "prefix f ((x # V) @ ''\<newline>'')"
  proof -
    have "prefix f (x # V)" using p assms(1) by (rule prefix_nospace_snoc)
    then have "length f \<le> length (x # V)" by (rule prefix_length_le)
    then have "drop (length f) ((x # V) @ ''\<newline>'') = drop (length f) (x # V) @ ''\<newline>''"
      by (rule drop_le_append)
    moreover have "nospace (drop (length f) (x # V))"
      using Cons.prems by (rule nospace_drop)
    ultimately show ?thesis using plus_space_fail assms(3) by metis
  qed
  then have "re_match (Seq (Str f) (Seq (Plus Space) R)) ((x # V) @ ''\<newline>'') = None"
    by (simp add: re_match_def rmatch_Seq_Str)
  then show ?case using Cons by simp
qed

lemma search_lit_absent:
  "x \<in> set f \<Longrightarrow> x \<notin> set s \<Longrightarrow> re_search (Seq (Str f) R) s = None"
proof (induction s)
  case Nil
  then show ?case by (auto simp: re_match_def rmatch_Seq)
next
  case (Cons y s)
  then have "\<not> prefix f (y # s)" using set_mono_prefix by fastforce
  then show ?case using Cons by (simp add: re_match_def rmatch_Seq)
qed

lemma search_l_tail: "nospace V \<Longrightarrow> re_search pat_l (V @ ''\<newline>'') = None"
  by (induction V) (auto simp: pat_l_def re_match_def rmatch_Seq)

section \<open>The loop body on the lines that \<open>qsub_string\<close> writes\<close>

lemmas pats = pat_PBS_def pat_flag_def pat_l_def pat_res_def pat_nodes_def pat_auto_def pat_cd_def

lemmas setters = set_name_def set_account_def set_exetime_def set_queue_def set_email_def
  set_message_def set_priority_def set_walltime_def set_pmem_def set_nodes_def

lemma search_eq_absent:
  "CHR ''='' \<in> set f \<Longrightarrow> CHR ''='' \<notin> set s \<Longrightarrow> re_search (Seq (Str f) R) s = None"
  by (rule search_lit_absent)

lemma search_flag_tail_grp:
  "nospace f \<Longrightarrow> f \<noteq> [] \<Longrightarrow> nospace V \<Longrightarrow>
   re_search (Seq (Str f) (Seq (Plus Space) (Seq (Grp n (Star Dot)) Space))) (V @ ''\<newline>'') = None"
  by (rule search_flag_tail) simp_all

lemma search_cd_tail:
  "nospace V \<Longrightarrow>
   re_search (Seq (Str ''cd'') (Seq (Plus Space) (Seq (Str ''$PBS_O_WORKDIR'') (Plus Space))))
     (V @ ''\<newline>'') = None"
  by (rule search_flag_tail) (simp_all add: isspace_def rmatch_Seq)

lemma set_resources_no_eq: "CHR ''='' \<notin> set line \<Longrightarrow> set_resources line st = Inr st"
  by (simp add: set_resources_def setters pat_res_def pat_nodes_def search_eq_absent)

lemma auto_block_no_eq: "CHR ''='' \<notin> set line \<Longrightarrow> auto_block line st = Inr st"
  by (simp add: auto_block_def pat_auto_def search_eq_absent)

lemmas walk = re_match_def rmatch_Seq_Str rmatch_Seq_Space flag_tail grp_dot_space
  search_flag_tail_grp search_cd_tail search_eq_absent search_l_tail [unfolded pat_l_def]
  isspace_def

lemma body_name:
  assumes "plain V"
  shows "body (''#PBS -N '' @ V @ ''\<newline>'') st
     = Inr (st\<lparr>name := Some V, required := AList.update ''name'' (PStr V) (required st)\<rparr>)"
  using plain_nospace [OF assms] plain_no_eq [OF assms]
  by (simp add: body_def pbs_block_def set_resources_no_eq auto_block_no_eq setters pats walk
      group_def)

lemma not_cd_name:
  assumes "plain V"
  shows "\<not> is_cd (''#PBS -N '' @ V @ ''\<newline>'')"
  using plain_nospace [OF assms]
  by (simp add: is_cd_def pats walk)

lemma body_account:
  assumes "plain V"
  shows "body (''#PBS -A '' @ V @ ''\<newline>'') st
     = Inr (st\<lparr>account := Some V, optional := AList.update ''account'' (PStr V) (optional st)\<rparr>)"
  using plain_nospace [OF assms] plain_no_eq [OF assms]
  by (simp add: body_def pbs_block_def set_resources_no_eq auto_block_no_eq setters pats walk
      group_def)

lemma body_exetime:
  assumes "plain V"
  shows "body (''#PBS -a '' @ V @ ''\<newline>'') st
     = Inr (st\<lparr>exetime := Some V, optional := AList.update ''exetime'' (PStr V) (optional st)\<rparr>)"
  using plain_nospace [OF assms] plain_no_eq [OF assms]
  by (simp add: body_def pbs_block_def set_resources_no_eq auto_block_no_eq setters pats walk
      group_def)

lemma body_queue:
  assumes "plain V"
  shows "body (''#PBS -q '' @ V @ ''\<newline>'') st
     = Inr (st\<lparr>queue := Some V, required := AList.update ''queue'' (PStr V) (required st)\<rparr>)"
  using plain_nospace [OF assms] plain_no_eq [OF assms]
  by (simp add: body_def pbs_block_def set_resources_no_eq auto_block_no_eq setters pats walk
      group_def)

lemma body_email:
  assumes "plain V"
  shows "body (''#PBS -M '' @ V @ ''\<newline>'') st = Inr st"
  using plain_nospace [OF assms] plain_no_eq [OF assms]
  by (simp add: body_def pbs_block_def set_resources_no_eq auto_block_no_eq setters pats walk
      group_def)

lemma body_message:
  assumes "plain V"
  shows "body (''#PBS -m '' @ V @ ''\<newline>'') st = Inr st"
  using plain_nospace [OF assms] plain_no_eq [OF assms]
  by (simp add: body_def pbs_block_def set_resources_no_eq auto_block_no_eq setters pats walk
      group_def)

lemma body_priority:
  assumes "plain V"
  shows "body (''#PBS -p '' @ V @ ''\<newline>'') st = Inr st"
  using plain_nospace [OF assms] plain_no_eq [OF assms]
  by (simp add: body_def pbs_block_def set_resources_no_eq auto_block_no_eq setters pats walk
      group_def)

lemma body_walltime:
  assumes "plain V"
  shows "body (''#PBS -l walltime='' @ V @ ''\<newline>'') st
     = Inr (st\<lparr>walltime := Some V, required := AList.update ''walltime'' (PStr V) (required st)\<rparr>)"
  using plain_nospace [OF assms] plain_no_eq [OF assms]
  by (simp add: body_def pbs_block_def set_resources_def auto_block_def setters pats walk group_def)

lemma body_pmem:
  assumes "plain V"
  shows "body (''#PBS -l pmem='' @ V @ ''\<newline>'') st
     = Inr (st\<lparr>pmem := Some V, optional := AList.update ''pmem'' (PStr V) (optional st)\<rparr>)"
  using plain_nospace [OF assms] plain_no_eq [OF assms]
  by (simp add: body_def pbs_block_def set_resources_def auto_block_def setters pats walk group_def)

lemma body_qos:
  assumes "plain V"
  shows "body (''#PBS -l qos='' @ V @ ''\<newline>'') st = Inr st"
  using plain_nospace [OF assms] plain_no_eq [OF assms]
  by (simp add: body_def pbs_block_def set_resources_def auto_block_def setters pats walk group_def)

lemma not_cd_account:
  assumes "plain V"
  shows "\<not> is_cd (''#PBS -A '' @ V @ ''\<newline>'')"
  using plain_nospace [OF assms]
  by (simp add: is_cd_def pats walk)

lemma not_cd_exetime:
  assumes "plain V"
  shows "\<not> is_cd (''#PBS -a '' @ V @ ''\<newline>'')"
  using plain_nospace [OF assms]
  by (simp add: is_cd_def pats walk)

lemma not_cd_queue:
  assumes "plain V"
  shows "\<not> is_cd (''#PBS -q '' @ V @ ''\<newline>'')"
  using plain_nospace [OF assms]
  by (simp add: is_cd_def pats walk)

lemma not_cd_email:
  assumes "plain V"
  shows "\<not> is_cd (''#PBS -M '' @ V @ ''\<newline>'')"
  using plain_nospace [OF assms]
  by (simp add: is_cd_def pats walk)

lemma not_cd_message:
  assumes "plain V"
  shows "\<not> is_cd (''#PBS -m '' @ V @ ''\<newline>'')"
  using plain_nospace [OF assms]
  by (simp add: is_cd_def pats walk)

lemma not_cd_priority:
  assumes "plain V"
  shows "\<not> is_cd (''#PBS -p '' @ V @ ''\<newline>'')"
  using plain_nospace [OF assms]
  by (simp add: is_cd_def pats walk)

lemma not_cd_walltime:
  assumes "plain V"
  shows "\<not> is_cd (''#PBS -l walltime='' @ V @ ''\<newline>'')"
  using plain_nospace [OF assms]
  by (simp add: is_cd_def pats walk)

lemma not_cd_pmem:
  assumes "plain V"
  shows "\<not> is_cd (''#PBS -l pmem='' @ V @ ''\<newline>'')"
  using plain_nospace [OF assms]
  by (simp add: is_cd_def pats walk)

lemma not_cd_qos:
  assumes "plain V"
  shows "\<not> is_cd (''#PBS -l qos='' @ V @ ''\<newline>'')"
  using plain_nospace [OF assms]
  by (simp add: is_cd_def pats walk)

lemma body_fixed:
  "body ''#!/bin/sh\<newline>'' st = Inr st"
  "body ''#PBS -S /bin/sh\<newline>'' st = Inr st"
  "body ''#PBS -V\<newline>'' st = Inr st"
  "body ''\<newline>'' st = Inr st"
  \<open>body ''echo "I ran on:"\<newline>'' st = Inr st\<close>
  "body ''cat $PBS_NODEFILE\<newline>'' st = Inr st"
  "body ''cd $PBS_O_WORKDIR\<newline>'' st = Inr st"
  by (simp_all add: body_def pbs_block_def set_resources_def auto_block_def setters pats walk
      group_def rmatch_Seq rmatch_Star)

lemma not_cd_fixed:
  "\<not> is_cd ''#!/bin/sh\<newline>''"
  "\<not> is_cd ''#PBS -S /bin/sh\<newline>''"
  "\<not> is_cd ''#PBS -V\<newline>''"
  "\<not> is_cd ''\<newline>''"
  \<open>\<not> is_cd ''echo "I ran on:"\<newline>''\<close>
  "\<not> is_cd ''cat $PBS_NODEFILE\<newline>''"
  "\<not> is_cd ''#auto=True\<newline>''"
  "\<not> is_cd ''#auto=False\<newline>''"
  "is_cd ''cd $PBS_O_WORKDIR\<newline>''"
  by (simp_all add: is_cd_def pats walk rmatch_Seq rmatch_Star)

lemma body_auto:
  "body (''#auto='' @ str_bool b @ ''\<newline>'') st
     = Inr (st\<lparr>auto := b, optional := AList.update ''auto'' (PBool b) (optional st)\<rparr>)"
  by (cases b)
    (simp_all add: body_def pbs_block_def auto_block_def str_bool_def pats walk group_def
      rmatch_Seq rmatch_Star pat_false_def pat_true_def)

section \<open>Integers printed and read back\<close>

lemma lt10_cases: "d < 10 \<Longrightarrow> d \<in> {0, 1, 2, 3, 4, 5, 6, 7, 8, 9::nat}"
  by auto

lemma digit_chr_isdigit: "d < 10 \<Longrightarrow> isdigit (digit_chr d)"
  by (drule lt10_cases) (auto simp: digit_chr_def isdigit_def)

lemma digit_val_chr: "d < 10 \<Longrightarrow> digit_val (digit_chr d) = d"
  by (drule lt10_cases) (auto simp: digit_chr_def digit_val_def)

lemma str_nat_digits: "list_all isdigit (str_nat n) \<and> str_nat n \<noteq> []"
proof (induction n rule: str_nat.induct)
  case (1 n)
  show ?case
  proof (cases "n < 10")
    case True
    then show ?thesis by (subst (1 2) str_nat.simps) (simp add: digit_chr_isdigit)
  next
    case False
    then show ?thesis using 1
      by (subst (1 2) str_nat.simps) (simp add: digit_chr_isdigit)
  qed
qed

lemma digits_val_snoc: "digits_val acc (xs @ [d]) = 10 * digits_val acc xs + digit_val d"
  by (induction xs arbitrary: acc) auto

lemma digits_val_str_nat: "digits_val 0 (str_nat n) = n"
proof (induction n rule: str_nat.induct)
  case (1 n)
  show ?case
  proof (cases "n < 10")
    case True
    then show ?thesis by (subst str_nat.simps) (simp add: digit_val_chr)
  next
    case False
    then show ?thesis using 1
      by (subst str_nat.simps) (simp add: digits_val_snoc digit_val_chr)
  qed
qed

lemma int_of_str_str_int: "int_of_str (str_int i) = Inr i"
proof (cases "i < 0")
  case True
  have "int_of_str ([] @ ''-'' @ str_nat (nat (- i)) @ [])
      = Inr (if ''-'' = ''-'' then - int (digits_val 0 (str_nat (nat (- i))))
             else int (digits_val 0 (str_nat (nat (- i)))))"
    by (rule int_of_str_literal) (simp_all add: str_nat_digits)
  then show ?thesis using True by (simp add: str_int_def digits_val_str_nat)
next
  case False
  have "int_of_str ([] @ [] @ str_nat (nat i) @ [])
      = Inr (if [] = ''-'' then - int (digits_val 0 (str_nat (nat i)))
             else int (digits_val 0 (str_nat (nat i))))"
    by (rule int_of_str_literal) (simp_all add: str_nat_digits)
  then show ?thesis using False by (simp add: str_int_def digits_val_str_nat)
qed

lemma str_int_chars: "c \<in> set (str_int i) \<Longrightarrow> isdigit c \<or> c = CHR ''-''"
  using str_nat_digits by (auto simp: str_int_def list_all_iff split: if_splits)

lemma nospace_str_int [simp]: "nospace (str_int i)"
  by (auto simp: nospace_def list_all_iff isspace_def isdigit_def dest!: str_int_chars)

lemma str_int_not_letter:
  "c \<notin> set ''0123456789-'' \<Longrightarrow> c \<notin> set (str_int i)"
  by (auto simp: isdigit_def dest!: str_int_chars)

section \<open>The line for nodes and processors\<close>

lemma seq_grp_dot:
  "CHR ''\<newline>'' \<notin> set V \<Longrightarrow>
   rmatch (Seq (Grp n (Star Dot)) X) (V @ CHR ''\<newline>'' # t) c
     = concat (map (\<lambda>u. rmatch X (u @ CHR ''\<newline>'' # t) ((n, take (length V - length u) V) # c))
                   (suffixes V))"
proof -
  assume nl: "CHR ''\<newline>'' \<notin> set V"
  have "rmatch (Seq (Grp n (Star Dot)) X) (V @ CHR ''\<newline>'' # t) c
      = concat (map (\<lambda>p. rmatch X (snd p) (fst p)) (rmatch (Grp n (Star Dot)) (V @ CHR ''\<newline>'' # t) c))"
    by (rule rmatch_Seq)
  then show ?thesis
    by (simp only: grp_star_dot [OF nl] map_map comp_def fst_conv snd_conv)
qed

lemma suffixes_ppn:
  "suffixes (N @ '':ppn='' @ P)
     = suffixes P @ [''='' @ P, ''n='' @ P, ''pn='' @ P, ''ppn='' @ P, '':ppn='' @ P]
       @ map (\<lambda>x. x @ '':ppn='' @ P) (tl (suffixes N))"
  by (simp add: suffixes_append [of N] suffixes_append [of "'':ppn=''"])

lemma ppn_fails_inside:
  assumes "CHR '':'' \<notin> set P"
  shows "concat (map (\<lambda>u. rmatch (Seq (Str '':ppn='') X) (u @ ''\<newline>'') (g u)) (suffixes P)) = []"
proof -
  have "rmatch (Seq (Str '':ppn='') X) (u @ ''\<newline>'') (g u) = []" if "u \<in> set (suffixes P)" for u
  proof -
    from that have "set u \<subseteq> set P" by (auto simp: suffix_def)
    then have "CHR '':'' \<notin> set (u @ ''\<newline>'')" using assms by auto
    then have "\<not> prefix '':ppn='' (u @ ''\<newline>'')"
      using set_mono_prefix [of "'':ppn=''" "u @ ''\<newline>''"] by auto
    then show ?thesis by (simp add: rmatch_Seq_Str)
  qed
  then show ?thesis by simp
qed

lemma match_nodes_tail:
  assumes "nospace N" "nospace P" "CHR '':'' \<notin> set P"
  shows "\<exists>rest. rmatch (Seq (Grp 1 (Star Dot)) (Seq (Str '':ppn='') (Seq (Grp 2 (Star Dot)) Space)))
                  (N @ '':ppn='' @ P @ ''\<newline>'') c
               = ((2, P) # (1, N) # c, []) # rest"
proof -
  let ?W = "N @ '':ppn='' @ P"
  let ?Z = "Seq (Str '':ppn='') (Seq (Grp 2 (Star Dot)) Space)"
  let ?g = "\<lambda>u. (1, take (length ?W - length u) ?W) # c"
  let ?F = "\<lambda>u. rmatch ?Z (u @ ''\<newline>'') (?g u)"
  have nl: "CHR ''\<newline>'' \<notin> set ?W"
    using assms(1,2) by (auto dest: nospace_no_newline)
  have a: "rmatch (Seq (Grp 1 (Star Dot)) ?Z) (?W @ ''\<newline>'') c = concat (map ?F (suffixes ?W))"
    using seq_grp_dot [OF nl, of 1 ?Z "[]" c] by simp
  have b: "concat (map ?F (suffixes P)) = []"
    using assms(3) by (rule ppn_fails_inside)
  have c: "?F (''='' @ P) = []" "?F (''n='' @ P) = []" "?F (''pn='' @ P) = []" "?F (''ppn='' @ P) = []"
    by (simp_all add: rmatch_Seq_Str)
  have "rmatch (Seq (Grp 2 (Star Dot)) Space) (P @ ''\<newline>'') (?g ('':ppn='' @ P))
      = [((2, P) # ?g ('':ppn='' @ P), [])]"
    using assms(2) by (rule grp_dot_space)
  then have d: "?F ('':ppn='' @ P) = [((2, P) # (1, N) # c, [])]"
    by (simp add: rmatch_Seq_Str)
  have "concat (map ?F (suffixes ?W))
      = ((2, P) # (1, N) # c, []) # concat (map ?F (map (\<lambda>x. x @ '':ppn='' @ P) (tl (suffixes N))))"
    unfolding suffixes_ppn map_append concat_append b
    using c d by simp
  with a show ?thesis by simp
qed

lemma str_int_no_colon: "CHR '':'' \<notin> set (str_int i)"
  by (rule str_int_not_letter) simp

lemma search_nodes_line:
  "re_search pat_nodes (''#PBS -l nodes='' @ str_int n @ '':ppn='' @ str_int p @ ''\<newline>'')
     = Some [(2, str_int p), (1, str_int n)]"
proof -
  obtain rest where
    "rmatch (Seq (Grp 1 (Star Dot)) (Seq (Str '':ppn='') (Seq (Grp 2 (Star Dot)) Space)))
       (str_int n @ '':ppn='' @ str_int p @ ''\<newline>'') []
     = ((2, str_int p) # (1, str_int n) # [], []) # rest"
    using match_nodes_tail [of "str_int n" "str_int p" "[]"] str_int_no_colon by auto
  then show ?thesis
    by (simp add: pat_nodes_def re_match_def rmatch_Seq_Str)
qed

lemma tail2_flag:
  assumes "nospace f" "f \<noteq> []" "nospace X" "nospace Y"
  shows "re_search (Seq (Str f) (Seq (Plus Space) (Seq (Grp k (Star Dot)) Space)))
           (X @ CHR '':'' # CHR ''p'' # CHR ''p'' # CHR ''n'' # CHR ''='' # Y @ ''\<newline>'') = None"
  using search_flag_tail_grp [OF assms(1,2), of "X @ '':ppn='' @ Y" k] assms(3,4)
  by (simp add: isspace_def)

lemma tail2_cd:
  assumes "nospace X" "nospace Y"
  shows "re_search (Seq (Str ''cd'') (Seq (Plus Space) (Seq (Str ''$PBS_O_WORKDIR'') (Plus Space))))
           (X @ CHR '':'' # CHR ''p'' # CHR ''p'' # CHR ''n'' # CHR ''='' # Y @ ''\<newline>'') = None"
  using search_cd_tail [of "X @ '':ppn='' @ Y"] assms
  by (simp add: isspace_def)

lemma search_letter_absent:
  "CHR ''w'' \<notin> set s \<Longrightarrow> re_search (Seq (Str ''walltime='') R) s = None"
  "CHR ''m'' \<notin> set s \<Longrightarrow> re_search (Seq (Str ''pmem='') R) s = None"
  "CHR ''a'' \<notin> set s \<Longrightarrow> re_search (Seq (Str ''auto='') R) s = None"
  by (rule search_lit_absent; simp)+

lemma body_nodes:
  "body (''#PBS -l nodes='' @ str_int n @ '':ppn='' @ str_int p @ ''\<newline>'') st
     = Inr (st\<lparr>nodes := Some n, ppn := Some p,
               required := AList.update ''ppn'' (PInt p)
                             (AList.update ''nodes'' (PInt n) (required st))\<rparr>)"
proof -
  let ?line = "''#PBS -l nodes='' @ str_int n @ '':ppn='' @ str_int p @ ''\<newline>''"
  have w: "CHR ''w'' \<notin> set ?line" "CHR ''m'' \<notin> set ?line" "CHR ''a'' \<notin> set ?line"
    by (simp_all add: str_int_not_letter)
  have au: "auto_block ?line st' = Inr st'" for st'
    by (simp only: auto_block_def pat_auto_def search_letter_absent(3) [OF w(3)] option.case)
  have wt: "set_walltime ?line st' = st'" for st'
    by (simp only: set_walltime_def pat_res_def search_letter_absent(1) [OF w(1)] option.case)
  have pm: "set_pmem ?line st' = st'" for st'
    by (simp only: set_pmem_def pat_res_def search_letter_absent(2) [OF w(2)] option.case)
  have nd: "set_nodes ?line st' = Inr (st'\<lparr>nodes := Some n, ppn := Some p,
               required := AList.update ''ppn'' (PInt p)
                             (AList.update ''nodes'' (PInt n) (required st'))\<rparr>)" for st'
    by (simp only: set_nodes_def search_nodes_line) (simp add: group_def int_of_str_str_int)
  have l: "re_search pat_l ?line \<noteq> None"
    by (simp add: pat_l_def re_match_def rmatch_Seq_Space rmatch_Seq_Str isspace_def)
  have rs: "set_resources ?line st' = Inr (st'\<lparr>nodes := Some n, ppn := Some p,
               required := AList.update ''ppn'' (PInt p)
                             (AList.update ''nodes'' (PInt n) (required st'))\<rparr>)" for st'
    using l by (simp only: set_resources_def wt nd pm) simp
  show ?thesis
    by (simp only: body_def pbs_block_def rs au)
      (simp add: set_name_def set_account_def set_exetime_def
        set_queue_def set_email_def set_message_def set_priority_def pat_PBS_def pat_flag_def
        re_match_def rmatch_Seq_Str tail2_flag isspace_def)
qed

lemma not_cd_nodes:
  "\<not> is_cd (''#PBS -l nodes='' @ str_int n @ '':ppn='' @ str_int p @ ''\<newline>'')"
  by (simp add: is_cd_def pat_cd_def re_match_def rmatch_Seq_Str tail2_cd)

section \<open>The lines of a serialized job\<close>

lemma qsub_string_concat:
  "qsub_string j = concat (header_lines j) @ ''cd $PBS_O_WORKDIR\<newline>'' @ fmt (command j) @ ''\<newline>''"
  by (simp add: qsub_string_def header_lines_def)

lemma split_lines_line:
  "CHR ''\<newline>'' \<notin> set u \<Longrightarrow> split_lines (u @ CHR ''\<newline>'' # rest) = (u @ ''\<newline>'') # split_lines rest"
  by (induction u) auto

lemma is_line_split: "is_line l \<Longrightarrow> split_lines (l @ rest) = l # split_lines rest"
proof -
  assume "is_line l"
  then have "l = butlast l @ ''\<newline>''" and "CHR ''\<newline>'' \<notin> set (butlast l)"
    by (auto simp: is_line_def) (metis append_butlast_last_id)
  then show ?thesis using split_lines_line [of "butlast l" rest]
    by (metis append.assoc append_Cons append_Nil)
qed

lemma split_lines_concat:
  "\<forall>l \<in> set ls. is_line l \<Longrightarrow> split_lines (concat ls @ rest) = ls @ split_lines rest"
  by (induction ls) (auto simp: is_line_split)

lemma plain_no_newline: "plain v \<Longrightarrow> CHR ''\<newline>'' \<notin> set v"
  by (auto dest: plain_nospace nospace_no_newline)

lemma str_int_no_newline: "CHR ''\<newline>'' \<notin> set (str_int i)"
  by (rule str_int_not_letter) simp

lemma str_bool_no_newline: "CHR ''\<newline>'' \<notin> set (str_bool b)"
  by (simp add: str_bool_def)

lemma header_lines_are_lines:
  assumes "well_formed j"
  shows "\<forall>l \<in> set (header_lines j). is_line l"
  using assms
  by (auto simp: well_formed_def plain_opt_def header_lines_def is_line_def plain_no_newline
      str_int_no_newline str_bool_no_newline butlast_append split: option.splits)

lemma is_line_cd: "is_line ''cd $PBS_O_WORKDIR\<newline>''"
  by (simp add: is_line_def)

lemma qsub_string_lines:
  assumes "well_formed j"
  shows "split_lines (qsub_string j)
     = header_lines j @ ''cd $PBS_O_WORKDIR\<newline>'' # split_lines (fmt (command j) @ ''\<newline>'')"
proof -
  have "split_lines (concat (header_lines j) @ (''cd $PBS_O_WORKDIR\<newline>'' @ fmt (command j) @ ''\<newline>''))
      = header_lines j @ split_lines (''cd $PBS_O_WORKDIR\<newline>'' @ fmt (command j) @ ''\<newline>'')"
    using header_lines_are_lines [OF assms] by (rule split_lines_concat)
  moreover have "split_lines (''cd $PBS_O_WORKDIR\<newline>'' @ fmt (command j) @ ''\<newline>'')
      = ''cd $PBS_O_WORKDIR\<newline>'' # split_lines (fmt (command j) @ ''\<newline>'')"
    using is_line_cd by (rule is_line_split)
  ultimately show ?thesis by (simp only: qsub_string_concat)
qed

section \<open>Reading a serialized job\<close>

lemma plain_fmt: "plain_opt x \<Longrightarrow> plain (fmt x)"
  by (cases x) (auto simp: plain_opt_def plain_def isspace_def)

lemma plain_not_sentinel: "plain v \<Longrightarrow> v \<noteq> ''Not Found''"
  by (auto simp: plain_def isspace_def)

lemmas body_norm =
  body_name [simplified] body_account [simplified] body_exetime [simplified]
  body_queue [simplified] body_email [simplified] body_message [simplified]
  body_priority [simplified] body_walltime [simplified] body_pmem [simplified]
  body_qos [simplified] body_nodes [simplified] body_fixed [simplified]
  body_auto [simplified]

lemma scan_header:
  assumes "well_formed j" and "rest \<noteq> ''Not Found''"
  shows "\<exists>st. scan (read_init fresh) (header_lines j @ [''cd $PBS_O_WORKDIR\<newline>'']) = Inr st
     \<and> check_required (found_cd rest st)
         = Inr (j\<lparr>command := Some rest, email := None, message := Some ''a'',
                  priority := Some ''0'', jobID := None\<rparr>)"
proof -
  obtain nm ac nd pp wt pm qu ex ms em pr cm au jid where j:
    "j = \<lparr>name = nm, account = ac, nodes = nd, ppn = pp, walltime = wt, pmem = pm,
          queue = qu, exetime = ex, message = ms, email = em, priority = pr, command = cm,
          auto = au, jobID = jid\<rparr>"
    by (cases j)
  from assms(1) obtain nm' wt' qu' nd' pp' cm' where v:
    "nm = Some nm'" "wt = Some wt'" "qu = Some qu'" "nd = Some nd'" "pp = Some pp'"
    "cm = Some cm'"
    by (auto simp: well_formed_def j)
  from assms(1) have p: "plain nm'" "plain wt'" "plain qu'" "plain_opt ac" "plain_opt pm"
    "plain_opt ex" "plain_opt em" "plain_opt ms" "plain (fmt pr)"
    by (auto simp: well_formed_def j v plain_opt_def plain_fmt)
  show ?thesis
    using p assms(2)
    by (cases ac; cases pm; cases ex; cases em; cases ms)
      (simp_all add: j v header_lines_def plain_opt_def body_norm read_init_def fresh_def
        check_required_def found_cd_def job.extend_def job.truncate_def read_state.fields_def
        plain_not_sentinel)
qed

lemmas not_cd_norm =
  not_cd_name [simplified] not_cd_account [simplified] not_cd_exetime [simplified]
  not_cd_queue [simplified] not_cd_email [simplified] not_cd_message [simplified]
  not_cd_priority [simplified] not_cd_walltime [simplified] not_cd_pmem [simplified]
  not_cd_qos [simplified] not_cd_nodes [simplified] not_cd_fixed [simplified]

lemma header_not_cd:
  assumes "well_formed j"
  shows "\<forall>l \<in> set (header_lines j). \<not> is_cd l"
proof -
  obtain nm ac nd pp wt pm qu ex ms em pr cm au jid where j:
    "j = \<lparr>name = nm, account = ac, nodes = nd, ppn = pp, walltime = wt, pmem = pm,
          queue = qu, exetime = ex, message = ms, email = em, priority = pr, command = cm,
          auto = au, jobID = jid\<rparr>"
    by (cases j)
  from assms(1) obtain nm' wt' qu' nd' pp' cm' where v:
    "nm = Some nm'" "wt = Some wt'" "qu = Some qu'" "nd = Some nd'" "pp = Some pp'"
    "cm = Some cm'"
    by (auto simp: well_formed_def j)
  from assms(1) have p: "plain nm'" "plain wt'" "plain qu'" "plain_opt ac" "plain_opt pm"
    "plain_opt ex" "plain_opt em" "plain_opt ms" "plain (fmt pr)"
    by (auto simp: well_formed_def j v plain_opt_def plain_fmt)
  show ?thesis
    using p
    by (cases ac; cases pm; cases ex; cases em; cases ms; cases au)
      (simp_all add: j v header_lines_def plain_opt_def not_cd_norm str_bool_def)
qed

lemma roundtrip:
  assumes "well_formed j"
  shows "parse (qsub_string j)
     = Some (Inr (j\<lparr>command := Some (fmt (command j) @ ''\<newline>''), email := None,
                    message := Some ''a'', priority := Some ''0'', jobID := None\<rparr>))"
proof -
  let ?rest = "fmt (command j) @ ''\<newline>''"
  have nf: "?rest \<noteq> ''Not Found''" by (auto simp: append_eq_Cons_conv)
  obtain st where st:
    "scan (read_init fresh) (header_lines j @ [''cd $PBS_O_WORKDIR\<newline>'']) = Inr st"
    "check_required (found_cd ?rest st)
         = Inr (j\<lparr>command := Some ?rest, email := None, message := Some ''a'',
                  priority := Some ''0'', jobID := None\<rparr>)"
    using scan_header [OF assms nf] by blast
  have "read_loop (read_init fresh) (qsub_string j)
      = (case scan (read_init fresh) (header_lines j @ [''cd $PBS_O_WORKDIR\<newline>'']) of
           Inl e \<Rightarrow> Some (Inl e)
         | Inr st' \<Rightarrow> Some (Inr (found_cd (concat (split_lines ?rest)) st')))"
    using qsub_string_lines [OF assms] header_not_cd [OF assms] not_cd_fixed(9)
    by (rule read_loop_anchor)
  then show ?thesis using st
    by (simp add: parse_read_loop concat_split_lines)
qed

section \<open>Writing a job and reading it back\<close>

text \<open>
  Claim C1, as amended.  Let a job have its required attributes set (\<open>name\<close>, \<open>nodes\<close>,
  \<open>ppn\<close>, \<open>walltime\<close>, \<open>queue\<close>, \<open>command\<close>), its text attributes free of white space
  and of \<open>=\<close>, and no optional attribute set (\<open>account\<close>, \<open>pmem\<close>, \<open>exetime\<close> and
  \<open>email\<close> are \<open>None\<close>, \<open>message\<close> and \<open>priority\<close> have their defaults).  Then reading
  what \<open>qsub_string\<close> writes returns a job that is equal to it in every attribute except
  \<open>jobID\<close>, which is \<open>None\<close>, and \<open>command\<close>, which is the command followed by the newline
  that \<open>qsub_string\<close> writes after it.
\<close>

theorem roundtrip_required_only:
  assumes "well_formed j" and "account j = None" and "pmem j = None" and "exetime j = None"
    and "email j = None" and "message j = Some ''a''" and "priority j = Some ''0''"
  shows "parse (qsub_string j)
     = Some (Inr (j\<lparr>command := Some (the (command j) @ ''\<newline>''), jobID := None\<rparr>))"
proof -
  from assms(1) obtain c where c: "command j = Some c" by (auto simp: well_formed_def)
  have "j\<lparr>command := Some (fmt (command j) @ ''\<newline>''), email := None,
                    message := Some ''a'', priority := Some ''0'', jobID := None\<rparr>
      = j\<lparr>command := Some (the (command j) @ ''\<newline>''), jobID := None\<rparr>"
    using assms(5,6,7) c by (cases j) simp
  then show ?thesis using roundtrip [OF assms(1)] by simp
qed

text \<open>The job of the example script is such a job.\<close>

theorem roundtrip_required_only_witness:
  "well_formed example_job
   \<and> parse (qsub_string example_job)
       = Some (Inr (example_job\<lparr>command := Some ''echo hi\<newline>''\<rparr>))"
proof -
  have w: "well_formed example_job" by code_simp
  have f: "account example_job = None" "pmem example_job = None" "exetime example_job = None"
    "email example_job = None" "message example_job = Some ''a''"
    "priority example_job = Some ''0''"
    by (simp_all add: example_job_def)
  show ?thesis
    using w roundtrip_required_only [OF w f] by (simp add: example_job_def)
qed

text \<open>
  The claim as stated fails.  The job of the example script comes back with the command
  \<open>echo hi\<close> followed by a newline; a name that starts with a blank comes back without it; and a
  queue called \<open>walltime=5\<close> comes back with the wall time \<open>5\<close>, read from the \<open>qos\<close> line.
\<close>

theorem roundtrip_required_only_counterexample:
  "parse (qsub_string example_job) = Some (Inr (example_job\<lparr>command := Some ''echo hi\<newline>''\<rparr>))
   \<and> example_job\<lparr>command := Some ''echo hi\<newline>'', jobID := jobID example_job\<rparr> \<noteq> example_job
   \<and> parse (qsub_string (example_job\<lparr>name := Some '' job1''\<rparr>))
       = Some (Inr (example_job\<lparr>command := Some ''echo hi\<newline>''\<rparr>))
   \<and> parse (qsub_string (example_job\<lparr>queue := Some ''walltime=5''\<rparr>))
       = Some (Inr (example_job\<lparr>queue := Some ''walltime=5'', walltime := Some ''5'',
                                 command := Some ''echo hi\<newline>''\<rparr>))"
  by code_simp

text \<open>
  Claim C3, as amended.  Let a job have its required attributes set and its text attributes free
  of white space and of \<open>=\<close>; \<open>account\<close>, \<open>pmem\<close> and \<open>exetime\<close> may be set or not, in any
  combination.  Then reading what \<open>qsub_string\<close> writes returns a job with the same \<open>name\<close>,
  \<open>account\<close>, \<open>nodes\<close>, \<open>ppn\<close>, \<open>walltime\<close>, \<open>pmem\<close>, \<open>queue\<close>, \<open>exetime\<close> and \<open>auto\<close>,
  and with the command followed by a newline.
\<close>

theorem roundtrip_optionals:
  assumes "well_formed j"
  shows "\<exists>j'. parse (qsub_string j) = Some (Inr j')
     \<and> name j' = name j \<and> account j' = account j \<and> nodes j' = nodes j \<and> ppn j' = ppn j
     \<and> walltime j' = walltime j \<and> pmem j' = pmem j \<and> queue j' = queue j
     \<and> exetime j' = exetime j \<and> auto j' = auto j
     \<and> command j' = Some (the (command j) @ ''\<newline>'')"
proof -
  from assms obtain c where c: "command j = Some c" by (auto simp: well_formed_def)
  show ?thesis using roundtrip [OF assms] c by simp
qed

text \<open>The job of the example script with an account, a memory request and a start time.\<close>

theorem roundtrip_optionals_witness:
  "well_formed (example_job\<lparr>account := Some ''prismsproject_flux'', pmem := Some ''3800mb'',
                            exetime := Some ''1200''\<rparr>)
   \<and> parse (qsub_string (example_job\<lparr>account := Some ''prismsproject_flux'',
                                      pmem := Some ''3800mb'', exetime := Some ''1200''\<rparr>))
       = Some (Inr (example_job\<lparr>account := Some ''prismsproject_flux'', pmem := Some ''3800mb'',
                                 exetime := Some ''1200'', command := Some ''echo hi\<newline>''\<rparr>))"
proof -
  let ?j = "example_job\<lparr>account := Some ''prismsproject_flux'', pmem := Some ''3800mb'',
                            exetime := Some ''1200''\<rparr>"
  have w: "well_formed ?j" by code_simp
  obtain j' where j': "parse (qsub_string ?j) = Some (Inr j')"
    "name j' = name ?j" "account j' = account ?j" "nodes j' = nodes ?j" "ppn j' = ppn ?j"
    "walltime j' = walltime ?j" "pmem j' = pmem ?j" "queue j' = queue ?j"
    "exetime j' = exetime ?j" "auto j' = auto ?j"
    "command j' = Some (the (command ?j) @ ''\<newline>'')"
    using roundtrip_optionals [OF w] by blast
  have p: "parse (qsub_string ?j)
       = Some (Inr (example_job\<lparr>account := Some ''prismsproject_flux'', pmem := Some ''3800mb'',
                                 exetime := Some ''1200'', command := Some ''echo hi\<newline>''\<rparr>))"
    by code_simp
  show ?thesis using w p j' by simp
qed

text \<open>
  The claim as stated fails.  An address with the events \<open>abe\<close>, and the priority \<open>-200\<close>, are
  written by \<open>qsub_string\<close> and not read back: the result has the defaults.  The command has
  gained a newline also when only the account is set.
\<close>

theorem roundtrip_optionals_counterexample:
  "parse (qsub_string (example_job\<lparr>email := Some ''jdoe@umich.edu'', message := Some ''abe''\<rparr>))
     = Some (Inr (example_job\<lparr>command := Some ''echo hi\<newline>''\<rparr>))
   \<and> parse (qsub_string (example_job\<lparr>priority := Some ''-200''\<rparr>))
     = Some (Inr (example_job\<lparr>command := Some ''echo hi\<newline>''\<rparr>))
   \<and> parse (qsub_string (example_job\<lparr>account := Some ''prismsproject_flux''\<rparr>))
     = Some (Inr (example_job\<lparr>account := Some ''prismsproject_flux'',
                               command := Some ''echo hi\<newline>''\<rparr>))"
  by code_simp


end
